theory Spec2Isabelle
  imports Main
begin

section \<open>Data model (shared/schema.ts)\<close>

text \<open>
  Identifiers, points, scores and timestamps are JavaScript numbers holding integers
  (serial and integer columns, \<open>Date.getTime()\<close> in milliseconds); they are modelled as
  \<open>int\<close>. A nullable column is an \<open>option\<close>. The \<open>json\<close> columns of a question
  (\<open>options\<close>, \<open>correctAnswer\<close>) hold null, a string or an array of strings.
\<close>

datatype json = JNull | JStr string | JArr "string list"

record exam =
  exam_id :: int
  exam_title :: string
  exam_duration :: int
  exam_status :: string
  exam_userId :: int

record question =
  q_id :: int
  q_examId :: int
  q_type :: string
  q_text :: string
  q_points :: int
  q_order :: int
  q_options :: json
  q_correctAnswer :: json

record examAttempt =
  att_id :: int
  att_examId :: int
  att_userId :: int
  startedAt :: int
  completedAt :: "int option"
  att_score :: "int option"
  maxScore :: int
  timeSpent :: "int option"

record answer =
  ans_id :: int
  attemptId :: int
  questionId :: int
  ans_answer :: string
  isCorrect :: "bool option"
  ans_score :: "int option"
  manuallyGraded :: bool

record gradingRequest =
  req_id :: int
  answerId :: int
  requestedAt :: int
  req_status :: string
  req_comment :: "string option"
  resolvedAt :: "int option"

text \<open>The body of a question-creation request after \<open>insertQuestionSchema.parse\<close>:
  the columns with a default may be absent.\<close>

record insertQuestion =
  iq_type :: string
  iq_text :: string
  iq_points :: "int option"
  iq_order :: "int option"
  iq_options :: "json option"
  iq_correctAnswer :: "json option"

section \<open>The in-memory store (server/storage.ts, class MemStorage)\<close>

text \<open>
  A JavaScript \<open>Map\<close> keeps its entries in insertion order; \<open>set\<close> on a key that is
  present replaces the value where it stands, \<open>set\<close> on a new key appends. A table is
  therefore an association list, and \<open>Array.from(m.values())\<close> is the list of its values.
  No method of the store mutates a stored object: every update builds a new object with
  the spread operator and stores that, so values can be copied freely.
\<close>

type_synonym 'a table = "(int \<times> 'a) list"

primrec table_set :: "int \<Rightarrow> 'a \<Rightarrow> 'a table \<Rightarrow> 'a table" where
  "table_set k v [] = [(k, v)]"
| "table_set k v (p # ps) = (if fst p = k then (k, v) # ps else p # table_set k v ps)"

definition table_get :: "'a table \<Rightarrow> int \<Rightarrow> 'a option" where
  "table_get t k = map_of t k"

definition table_values :: "'a table \<Rightarrow> 'a list" where
  "table_values t = map snd t"

record store =
  exams :: "exam table"
  questions :: "question table"
  examAttempts :: "examAttempt table"
  answers :: "answer table"
  gradingRequests :: "gradingRequest table"
  questionIdCounter :: int
  attemptIdCounter :: int
  answerIdCounter :: int
  requestIdCounter :: int

text \<open>The store as the constructor leaves it (the user table, which the handlers
  below never read, is left out: they receive the current user from the middleware).\<close>

definition empty_store :: store where
  "empty_store = \<lparr> exams = [], questions = [], examAttempts = [], answers = [],
     gradingRequests = [], questionIdCounter = 1, attemptIdCounter = 1,
     answerIdCounter = 1, requestIdCounter = 1 \<rparr>"

definition getExam :: "store \<Rightarrow> int \<Rightarrow> exam option" where
  "getExam st i = table_get (exams st) i"

text \<open>\<open>x || null\<close> on a json value: an absent value and the empty string are falsy.\<close>

definition json_or_null :: "json option \<Rightarrow> json" where
  "json_or_null j = (case j of None \<Rightarrow> JNull | Some (JStr []) \<Rightarrow> JNull | Some v \<Rightarrow> v)"

definition createQuestion :: "store \<Rightarrow> int \<Rightarrow> insertQuestion \<Rightarrow> question \<times> store" where
  "createQuestion st examId d =
     (let i = questionIdCounter st;
          q = \<lparr> q_id = i, q_examId = examId, q_type = iq_type d, q_text = iq_text d,
                q_points = (case iq_points d of None \<Rightarrow> 0 | Some p \<Rightarrow> p),
                q_order = (case iq_order d of None \<Rightarrow> 0 | Some p \<Rightarrow> p),
                q_options = json_or_null (iq_options d),
                q_correctAnswer = json_or_null (iq_correctAnswer d) \<rparr>
      in (q, st\<lparr> questionIdCounter := i + 1, questions := table_set i q (questions st) \<rparr>))"

definition getQuestion :: "store \<Rightarrow> int \<Rightarrow> question option" where
  "getQuestion st i = table_get (questions st) i"

definition getQuestionsByExam :: "store \<Rightarrow> int \<Rightarrow> question list" where
  "getQuestionsByExam st examId =
     sort_key q_order (filter (\<lambda>q. q_examId q = examId) (table_values (questions st)))"

definition createExamAttempt :: "store \<Rightarrow> int \<Rightarrow> int \<Rightarrow> int \<Rightarrow> int \<Rightarrow> examAttempt \<times> store" where
  "createExamAttempt st examId userId maxSc now =
     (let i = attemptIdCounter st;
          a = \<lparr> att_id = i, att_examId = examId, att_userId = userId, startedAt = now,
                completedAt = None, att_score = None, maxScore = maxSc, timeSpent = None \<rparr>
      in (a, st\<lparr> attemptIdCounter := i + 1, examAttempts := table_set i a (examAttempts st) \<rparr>))"

definition getExamAttempt :: "store \<Rightarrow> int \<Rightarrow> examAttempt option" where
  "getExamAttempt st i = table_get (examAttempts st) i"

text \<open>\<open>updateX(id, patch)\<close> stores \<open>{...old, ...patch}\<close> and returns it, or returns
  undefined when the key is absent. The patch is given as the function that overwrites
  the patched fields.\<close>

definition updateExamAttempt ::
  "store \<Rightarrow> int \<Rightarrow> (examAttempt \<Rightarrow> examAttempt) \<Rightarrow> examAttempt option \<times> store" where
  "updateExamAttempt st i patch =
     (case table_get (examAttempts st) i of
        None \<Rightarrow> (None, st)
      | Some a \<Rightarrow> (Some (patch a), st\<lparr> examAttempts := table_set i (patch a) (examAttempts st) \<rparr>))"

definition getExamAttemptsByUser :: "store \<Rightarrow> int \<Rightarrow> examAttempt list" where
  "getExamAttemptsByUser st userId =
     filter (\<lambda>a. att_userId a = userId) (table_values (examAttempts st))"

definition createAnswer :: "store \<Rightarrow> int \<Rightarrow> int \<Rightarrow> string \<Rightarrow> answer \<times> store" where
  "createAnswer st attId qId txt =
     (let i = answerIdCounter st;
          a = \<lparr> ans_id = i, attemptId = attId, questionId = qId, ans_answer = txt,
                isCorrect = None, ans_score = None, manuallyGraded = False \<rparr>
      in (a, st\<lparr> answerIdCounter := i + 1, answers := table_set i a (answers st) \<rparr>))"

definition getAnswer :: "store \<Rightarrow> int \<Rightarrow> answer option" where
  "getAnswer st i = table_get (answers st) i"

definition updateAnswer ::
  "store \<Rightarrow> int \<Rightarrow> (answer \<Rightarrow> answer) \<Rightarrow> answer option \<times> store" where
  "updateAnswer st i patch =
     (case table_get (answers st) i of
        None \<Rightarrow> (None, st)
      | Some a \<Rightarrow> (Some (patch a), st\<lparr> answers := table_set i (patch a) (answers st) \<rparr>))"

definition getAnswersByAttempt :: "store \<Rightarrow> int \<Rightarrow> answer list" where
  "getAnswersByAttempt st attId =
     filter (\<lambda>a. attemptId a = attId) (table_values (answers st))"

definition createGradingRequest ::
  "store \<Rightarrow> int \<Rightarrow> string option \<Rightarrow> int \<Rightarrow> gradingRequest \<times> store" where
  "createGradingRequest st ansId comment now =
     (let i = requestIdCounter st;
          r = \<lparr> req_id = i, answerId = ansId, requestedAt = now, req_status = ''pending'',
                req_comment = (case comment of Some [] \<Rightarrow> None | c \<Rightarrow> c),
                resolvedAt = None \<rparr>
      in (r, st\<lparr> requestIdCounter := i + 1,
                 gradingRequests := table_set i r (gradingRequests st) \<rparr>))"

definition getGradingRequest :: "store \<Rightarrow> int \<Rightarrow> gradingRequest option" where
  "getGradingRequest st i = table_get (gradingRequests st) i"

definition updateGradingRequest ::
  "store \<Rightarrow> int \<Rightarrow> (gradingRequest \<Rightarrow> gradingRequest) \<Rightarrow> gradingRequest option \<times> store" where
  "updateGradingRequest st i patch =
     (case table_get (gradingRequests st) i of
        None \<Rightarrow> (None, st)
      | Some r \<Rightarrow> (Some (patch r),
                   st\<lparr> gradingRequests := table_set i (patch r) (gradingRequests st) \<rparr>))"

section \<open>Request handlers (server/routes.ts)\<close>

text \<open>
  A handler takes the store, the id of the current user (\<open>req.user.id\<close>, set by the
  middleware), the request's parameters and, where it reads the clock, the value of
  \<open>new Date()\<close>. It returns the response and the store it leaves. A response is an
  error status with its message, or a status with a JSON body. The spec's error names
  are the statuses 404 (NotFound), 403 (Forbidden) and 400 (InvalidState for
  \<open>Attempt already completed\<close> and \<open>Exam is not active\<close>, InvalidInput for the others).
\<close>

datatype 'a response = Error nat string | Json nat 'a

text \<open>\<open>answers.reduce((total, a) => total + (a.score || 0), 0)\<close>\<close>

definition totalScore :: "answer list \<Rightarrow> int" where
  "totalScore as =
     foldl (\<lambda>total a. total + (case ans_score a of None \<Rightarrow> 0 | Some s \<Rightarrow> s)) 0 as"

text \<open>POST /api/exams/:examId/questions\<close>

definition addQuestion ::
  "store \<Rightarrow> int \<Rightarrow> int \<Rightarrow> insertQuestion \<Rightarrow> question response \<times> store" where
  "addQuestion st uid examId d =
     (case getExam st examId of
        None \<Rightarrow> (Error 404 ''Exam not found'', st)
      | Some ex \<Rightarrow>
          if exam_userId ex \<noteq> uid then (Error 403 ''Forbidden'', st)
          else (let (q, st') = createQuestion st examId d in (Json 201 q, st')))"

text \<open>
  POST /api/exams/:examId/attempts. Before it creates the attempt the handler passes
  \<open>{examId, userId, maxScore}\<close> to \<open>insertExamAttemptSchema.parse\<close>, and a \<open>ZodError\<close>
  becomes the response 400, \<open>Invalid input data\<close>, with nothing created. The schema is
  \<open>createInsertSchema(examAttempts)\<close> of shared/schema.ts; what that call makes of three
  \<open>integer\<close> columns is decided in the drizzle-zod library, which is not part of the
  repository. The schema is therefore a parameter of the handler: the predicate that
  holds of the three fields when \<open>parse\<close> accepts them. On success \<open>parse\<close> returns the
  fields as they are.
\<close>

type_synonym attemptSchema = "int \<Rightarrow> int \<Rightarrow> int \<Rightarrow> bool"

definition startAttempt ::
  "attemptSchema \<Rightarrow> store \<Rightarrow> int \<Rightarrow> int \<Rightarrow> int \<Rightarrow> examAttempt response \<times> store" where
  "startAttempt schema st uid examId now =
     (case getExam st examId of
        None \<Rightarrow> (Error 404 ''Exam not found'', st)
      | Some ex \<Rightarrow>
          if exam_status ex \<noteq> ''active'' then (Error 400 ''Exam is not active'', st)
          else
            (case find (\<lambda>a. att_examId a = examId \<and> completedAt a = None)
                       (getExamAttemptsByUser st uid) of
               Some existingAttempt \<Rightarrow> (Json 200 existingAttempt, st)
             | None \<Rightarrow>
                 (let qs = getQuestionsByExam st examId;
                      maxSc = foldl (\<lambda>total q. total + q_points q) 0 qs
                  in if \<not> schema examId uid maxSc then (Error 400 ''Invalid input data'', st)
                     else (let (attempt, st') = createExamAttempt st examId uid maxSc now
                           in (Json 201 attempt, st')))))"

text \<open>PUT /api/attempts/:id/complete. A \<open>Date\<close> is truthy, so \<open>if (attempt.completedAt)\<close>
  tests for non-null. \<open>Math.floor\<close> of the quotient is \<open>div\<close> on \<open>int\<close>.\<close>

definition completeAttempt ::
  "store \<Rightarrow> int \<Rightarrow> int \<Rightarrow> int \<Rightarrow> examAttempt option response \<times> store" where
  "completeAttempt st uid attId now =
     (case getExamAttempt st attId of
        None \<Rightarrow> (Error 404 ''Attempt not found'', st)
      | Some attempt \<Rightarrow>
          if att_userId attempt \<noteq> uid then (Error 403 ''Forbidden'', st)
          else if completedAt attempt \<noteq> None then (Error 400 ''Attempt already completed'', st)
          else
            (let spent = (now - startedAt attempt) div 1000;
                 sc = totalScore (getAnswersByAttempt st attId);
                 (updatedAttempt, st') = updateExamAttempt st attId
                    (\<lambda>a. a\<lparr> completedAt := Some now, timeSpent := Some spent,
                             att_score := Some sc \<rparr>)
             in (Json 200 updatedAttempt, st')))"

text \<open>
  The grading block of POST /api/attempts/:attemptId/answers, which the handler holds
  twice with the same text (once for an existing answer, once for a new one). It is
  entered when the question exists and its type is not \<open>essay\<close>: \<open>isCorrect\<close> and
  \<open>score\<close> start as \<open>false\<close> and \<open>0\<close>, and only the two objective types assign them.
  \<open>===\<close> between the submitted string and a \<open>correctAnswer\<close> that is not a string is false.
\<close>

definition gradeBlock :: "question \<Rightarrow> string \<Rightarrow> bool \<times> int" where
  "gradeBlock q txt =
     (if q_type q = ''multiple_choice'' then
        (let c = (JStr txt = q_correctAnswer q) in (c, if c then q_points q else 0))
      else if q_type q = ''true_false'' then
        (let c = (JStr txt = q_correctAnswer q) in (c, if c then q_points q else 0))
      else (False, 0))"

definition gradeStored :: "store \<Rightarrow> int \<Rightarrow> int \<Rightarrow> string \<Rightarrow> store" where
  "gradeStored st ansId qId txt =
     (case getQuestion st qId of
        None \<Rightarrow> st
      | Some q \<Rightarrow>
          if q_type q \<noteq> ''essay'' then
            (let (c, sc) = gradeBlock q txt
             in snd (updateAnswer st ansId (\<lambda>a. a\<lparr> isCorrect := Some c, ans_score := Some sc \<rparr>)))
          else st)"

text \<open>POST /api/attempts/:attemptId/answers, with the body already parsed into a
  question id and an answer string. The body of the response is the object the handler
  passes to \<open>res.json\<close>: the result of the first \<open>updateAnswer\<close> for an existing answer,
  the result of \<open>createAnswer\<close> for a new one.\<close>

definition submitAnswer ::
  "store \<Rightarrow> int \<Rightarrow> int \<Rightarrow> int \<Rightarrow> string \<Rightarrow> answer option response \<times> store" where
  "submitAnswer st uid attId qId txt =
     (case getExamAttempt st attId of
        None \<Rightarrow> (Error 404 ''Attempt not found'', st)
      | Some attempt \<Rightarrow>
          if att_userId attempt \<noteq> uid then (Error 403 ''Forbidden'', st)
          else if completedAt attempt \<noteq> None then (Error 400 ''Attempt already completed'', st)
          else
            (case find (\<lambda>a. questionId a = qId) (getAnswersByAttempt st attId) of
               Some existingAnswer \<Rightarrow>
                 (let (updatedAnswer, st1) =
                        updateAnswer st (ans_id existingAnswer) (\<lambda>a. a\<lparr> ans_answer := txt \<rparr>);
                      st2 = gradeStored st1 (ans_id existingAnswer) qId txt
                  in (Json 200 updatedAnswer, st2))
             | None \<Rightarrow>
                 (let (ans, st1) = createAnswer st attId qId txt;
                      st2 = gradeStored st1 (ans_id ans) qId txt
                  in (Json 201 (Some ans), st2))))"

text \<open>PUT /api/answers/:id/grade. The body's \<open>score\<close> is \<open>None\<close> when it is not a
  number; \<open>isCorrect\<close> is the truthiness of the body's field.\<close>

definition gradeAnswer ::
  "store \<Rightarrow> int \<Rightarrow> int \<Rightarrow> int option \<Rightarrow> bool \<Rightarrow> answer option response \<times> store" where
  "gradeAnswer st uid ansId score correct =
     (case getAnswer st ansId of
        None \<Rightarrow> (Error 404 ''Answer not found'', st)
      | Some ans \<Rightarrow>
     (case getExamAttempt st (attemptId ans) of
        None \<Rightarrow> (Error 404 ''Attempt not found'', st)
      | Some attempt \<Rightarrow>
     (case getExam st (att_examId attempt) of
        None \<Rightarrow> (Error 404 ''Exam not found'', st)
      | Some ex \<Rightarrow>
          if exam_userId ex \<noteq> uid then (Error 403 ''Forbidden'', st)
          else
            (case score of
               None \<Rightarrow> (Error 400 ''Invalid score'', st)
             | Some s \<Rightarrow>
                 if s < 0 then (Error 400 ''Invalid score'', st)
                 else
                   (case getQuestion st (questionId ans) of
                      None \<Rightarrow> (Error 404 ''Question not found'', st)
                    | Some q \<Rightarrow>
                        if s > q_points q
                        then (Error 400 ''Score cannot exceed question points'', st)
                        else
                          (let (updatedAnswer, st1) = updateAnswer st ansId
                                 (\<lambda>a. a\<lparr> ans_score := Some s, isCorrect := Some correct,
                                          manuallyGraded := True \<rparr>);
                               total = totalScore (getAnswersByAttempt st1 (att_id attempt));
                               st2 = snd (updateExamAttempt st1 (att_id attempt)
                                            (\<lambda>a. a\<lparr> att_score := Some total \<rparr>))
                           in (Json 200 updatedAnswer, st2)))))))"

text \<open>POST /api/answers/:answerId/grading-requests\<close>

definition requestReview ::
  "store \<Rightarrow> int \<Rightarrow> int \<Rightarrow> string option \<Rightarrow> int \<Rightarrow> gradingRequest response \<times> store" where
  "requestReview st uid ansId comment now =
     (case getAnswer st ansId of
        None \<Rightarrow> (Error 404 ''Answer not found'', st)
      | Some ans \<Rightarrow>
     (case getExamAttempt st (attemptId ans) of
        None \<Rightarrow> (Error 404 ''Attempt not found'', st)
      | Some attempt \<Rightarrow>
          if att_userId attempt \<noteq> uid then (Error 403 ''Forbidden'', st)
          else (let (r, st') = createGradingRequest st ansId comment now
                in (Json 201 r, st'))))"

text \<open>PUT /api/grading-requests/:id. The request is updated as soon as the status has
  been checked; the question and the score are looked at after that.\<close>

definition resolveRequest ::
  "store \<Rightarrow> int \<Rightarrow> int \<Rightarrow> string \<Rightarrow> string option \<Rightarrow> int option \<Rightarrow> int
     \<Rightarrow> gradingRequest option response \<times> store" where
  "resolveRequest st uid reqId status comment score now =
     (case getGradingRequest st reqId of
        None \<Rightarrow> (Error 404 ''Grading request not found'', st)
      | Some request \<Rightarrow>
     (case getAnswer st (answerId request) of
        None \<Rightarrow> (Error 404 ''Answer not found'', st)
      | Some ans \<Rightarrow>
     (case getExamAttempt st (attemptId ans) of
        None \<Rightarrow> (Error 404 ''Attempt not found'', st)
      | Some attempt \<Rightarrow>
     (case getExam st (att_examId attempt) of
        None \<Rightarrow> (Error 404 ''Exam not found'', st)
      | Some ex \<Rightarrow>
          if exam_userId ex \<noteq> uid then (Error 403 ''Forbidden'', st)
          else if status \<notin> set [''approved'', ''rejected'']
          then (Error 400 ''Invalid status'', st)
          else
            (let (updatedRequest, st1) = updateGradingRequest st reqId
                   (\<lambda>r. r\<lparr> req_status := status, req_comment := comment,
                            resolvedAt := Some now \<rparr>)
             in (case (if status = ''approved'' then score else None) of
                   None \<Rightarrow> (Json 200 updatedRequest, st1)
                 | Some s \<Rightarrow>
                     (case getQuestion st1 (questionId ans) of
                        None \<Rightarrow> (Error 404 ''Question not found'', st1)
                      | Some q \<Rightarrow>
                          if s > q_points q
                          then (Error 400 ''Score cannot exceed question points'', st1)
                          else
                            (let st2 = snd (updateAnswer st1 (ans_id ans)
                                   (\<lambda>a. a\<lparr> ans_score := Some s, isCorrect := Some (s > 0),
                                            manuallyGraded := True \<rparr>));
                                 total = totalScore (getAnswersByAttempt st2 (att_id attempt));
                                 st3 = snd (updateExamAttempt st2 (att_id attempt)
                                              (\<lambda>a. a\<lparr> att_score := Some total \<rparr>))
                             in (Json 200 updatedRequest, st3)))))))))"

text \<open>A request to the server, and the store it leaves.\<close>

datatype request =
    AddQuestion int int insertQuestion
  | StartAttempt int int int
  | SubmitAnswer int int int string
  | CompleteAttempt int int int
  | GradeAnswer int int "int option" bool
  | RequestReview int int "string option" int
  | ResolveRequest int int string "string option" "int option" int

fun handle :: "attemptSchema \<Rightarrow> store \<Rightarrow> request \<Rightarrow> store" where
  "handle sch st (AddQuestion uid examId d) = snd (addQuestion st uid examId d)"
| "handle sch st (StartAttempt uid examId now) = snd (startAttempt sch st uid examId now)"
| "handle sch st (SubmitAnswer uid attId qId txt) = snd (submitAnswer st uid attId qId txt)"
| "handle sch st (CompleteAttempt uid attId now) = snd (completeAttempt st uid attId now)"
| "handle sch st (GradeAnswer uid ansId score correct) =
     snd (gradeAnswer st uid ansId score correct)"
| "handle sch st (RequestReview uid ansId comment now) =
     snd (requestReview st uid ansId comment now)"
| "handle sch st (ResolveRequest uid reqId status comment score now) =
     snd (resolveRequest st uid reqId status comment score now)"

section \<open>Well-formed stores\<close>

text \<open>
  The store's tables are maps keyed by the id the store gave out: keys are distinct,
  every value carries its key as its id, and every key is below the table's counter.
\<close>

definition wf_table :: "('a \<Rightarrow> int) \<Rightarrow> int \<Rightarrow> 'a table \<Rightarrow> bool" where
  "wf_table idf counter t =
     (distinct (map fst t) \<and> list_all (\<lambda>p. idf (snd p) = fst p \<and> fst p < counter) t)"

definition wf_store :: "store \<Rightarrow> bool" where
  "wf_store st =
     (wf_table q_id (questionIdCounter st) (questions st) \<and>
      wf_table att_id (attemptIdCounter st) (examAttempts st) \<and>
      wf_table ans_id (answerIdCounter st) (answers st) \<and>
      wf_table req_id (requestIdCounter st) (gradingRequests st))"

section \<open>Notions used to state the properties\<close>

text \<open>The attempts of a user on an exam that are not completed, oldest first: the
  list in which the handler for starting an attempt looks for an existing attempt.\<close>

definition inProgress :: "store \<Rightarrow> int \<Rightarrow> int \<Rightarrow> examAttempt list" where
  "inProgress st uid examId =
     filter (\<lambda>a. att_examId a = examId \<and> completedAt a = None) (getExamAttemptsByUser st uid)"

text \<open>The score bounds of the spec: every answer either has no score, or its question
  exists and the score lies between 0 and the question's points.\<close>

definition score_bounds :: "store \<Rightarrow> bool" where
  "score_bounds st =
     list_all (\<lambda>a. case ans_score a of
                      None \<Rightarrow> True
                    | Some s \<Rightarrow> (case getQuestion st (questionId a) of
                                   None \<Rightarrow> False
                                 | Some q \<Rightarrow> 0 \<le> s \<and> s \<le> q_points q))
              (table_values (answers st))"

text \<open>What \<open>gradeStored\<close> makes of an answer, given the result of the question lookup:
  the guard and the patch of the grading block, as a function on the answer.\<close>

definition graded :: "question option \<Rightarrow> string \<Rightarrow> answer \<Rightarrow> answer" where
  "graded qo txt a =
     (case qo of
        None \<Rightarrow> a
      | Some q \<Rightarrow> if q_type q \<noteq> ''essay''
                  then a\<lparr> isCorrect := Some (fst (gradeBlock q txt)),
                          ans_score := Some (snd (gradeBlock q txt)) \<rparr>
                  else a)"

section \<open>A store to run the handlers on\<close>

text \<open>
  One active exam of teacher 1 with a multiple-choice question worth 5, a true/false
  question worth 1, an essay worth 3, a question of a type the handlers do not know
  and a second true/false question worth 2; one attempt of user 1 in progress, whose
  three answers (to the first three questions) carry the scores 2, 0 and 3; one pending
  grading request on the first answer.
\<close>

definition demo_exam :: exam where
  "demo_exam = \<lparr> exam_id = 1, exam_title = ''Algebra'', exam_duration = 60,
     exam_status = ''active'', exam_userId = 1 \<rparr>"

definition demo_q1 :: question where
  "demo_q1 = \<lparr> q_id = 1, q_examId = 1, q_type = ''multiple_choice'', q_text = ''Q1'',
     q_points = 5, q_order = 0, q_options = JArr [''A'', ''B''], q_correctAnswer = JStr ''A'' \<rparr>"

definition demo_q2 :: question where
  "demo_q2 = \<lparr> q_id = 2, q_examId = 1, q_type = ''true_false'', q_text = ''Q2'',
     q_points = 1, q_order = 1, q_options = JNull, q_correctAnswer = JStr ''true'' \<rparr>"

definition demo_q3 :: question where
  "demo_q3 = \<lparr> q_id = 3, q_examId = 1, q_type = ''essay'', q_text = ''Q3'',
     q_points = 3, q_order = 2, q_options = JNull, q_correctAnswer = JArr [''x''] \<rparr>"

definition demo_q4 :: question where
  "demo_q4 = \<lparr> q_id = 4, q_examId = 1, q_type = ''short_answer'', q_text = ''Q4'',
     q_points = 5, q_order = 3, q_options = JNull, q_correctAnswer = JStr ''y'' \<rparr>"

definition demo_q5 :: question where
  "demo_q5 = \<lparr> q_id = 5, q_examId = 1, q_type = ''true_false'', q_text = ''Q5'',
     q_points = 2, q_order = 4, q_options = JNull, q_correctAnswer = JStr ''false'' \<rparr>"

definition demo_attempt :: examAttempt where
  "demo_attempt = \<lparr> att_id = 1, att_examId = 1, att_userId = 1, startedAt = 1000,
     completedAt = None, att_score = None, maxScore = 16, timeSpent = None \<rparr>"

definition demo_answer1 :: answer where
  "demo_answer1 = \<lparr> ans_id = 1, attemptId = 1, questionId = 1, ans_answer = ''A'',
     isCorrect = Some True, ans_score = Some 2, manuallyGraded = True \<rparr>"

definition demo_answer2 :: answer where
  "demo_answer2 = \<lparr> ans_id = 2, attemptId = 1, questionId = 2, ans_answer = ''false'',
     isCorrect = Some False, ans_score = Some 0, manuallyGraded = False \<rparr>"

definition demo_answer3 :: answer where
  "demo_answer3 = \<lparr> ans_id = 3, attemptId = 1, questionId = 3, ans_answer = ''text'',
     isCorrect = Some True, ans_score = Some 3, manuallyGraded = True \<rparr>"

definition demo_request :: gradingRequest where
  "demo_request = \<lparr> req_id = 1, answerId = 1, requestedAt = 2000, req_status = ''pending'',
     req_comment = None, resolvedAt = None \<rparr>"

definition demo_store :: store where
  "demo_store = \<lparr>
     exams = [(1, demo_exam)],
     questions = [(1, demo_q1), (2, demo_q2), (3, demo_q3), (4, demo_q4), (5, demo_q5)],
     examAttempts = [(1, demo_attempt)],
     answers = [(1, demo_answer1), (2, demo_answer2), (3, demo_answer3)],
     gradingRequests = [(1, demo_request)],
     questionIdCounter = 6, attemptIdCounter = 2, answerIdCounter = 4,
     requestIdCounter = 2 \<rparr>"

text \<open>The attempt that user 2 gets when starting the demo exam at time 7000.\<close>

definition demo_attempt2 :: examAttempt where
  "demo_attempt2 = \<lparr> att_id = 2, att_examId = 1, att_userId = 2, startedAt = 7000,
     completedAt = None, att_score = None, maxScore = 16, timeSpent = None \<rparr>"

text \<open>A store with a second attempt: the demo store after user 2 has started the
  exam and answered the first question right. The scores of all answers add up to 10,
  those of the first attempt to 5.\<close>

definition demo_answer4 :: answer where
  "demo_answer4 = \<lparr> ans_id = 4, attemptId = 2, questionId = 1, ans_answer = ''A'',
     isCorrect = Some True, ans_score = Some 5, manuallyGraded = False \<rparr>"

definition demo_store2 :: store where
  "demo_store2 = demo_store\<lparr>
     examAttempts := [(1, demo_attempt), (2, demo_attempt2)],
     answers := [(1, demo_answer1), (2, demo_answer2), (3, demo_answer3), (4, demo_answer4)],
     attemptIdCounter := 3, answerIdCounter := 5 \<rparr>"

text \<open>A schema to run \<open>startAttempt\<close> with: each of the three fields fits a 32-bit
  integer column.\<close>

definition int32_schema :: attemptSchema where
  "int32_schema examId userId maxSc =
     (- 2147483648 \<le> examId \<and> examId \<le> 2147483647 \<and>
      - 2147483648 \<le> userId \<and> userId \<le> 2147483647 \<and>
      - 2147483648 \<le> maxSc \<and> maxSc \<le> 2147483647)"

section \<open>Tables\<close>

text \<open>Lookup, keys and values of a table after \<open>table_set\<close>, and the list functions
  the handlers use on the values.\<close>

lemma table_get_set:
  "table_get (table_set k v t) k' = (if k' = k then Some v else table_get t k')"
  by (induction t) (auto simp: table_get_def)

lemma keys_table_set:
  "map fst (table_set k v t) = (if k \<in> set (map fst t) then map fst t else map fst t @ [k])"
  by (induction t) auto

lemma table_set_fresh: "k \<notin> set (map fst t) \<Longrightarrow> table_set k v t = t @ [(k, v)]"
  by (induction t) auto

lemma set_table_set: "set (table_set k v t) \<subseteq> insert (k, v) (set t)"
  by (induction t) auto

lemma distinct_table_set: "distinct (map fst t) \<Longrightarrow> distinct (map fst (table_set k v t))"
  by (simp add: keys_table_set)

lemma wf_table_set:
  assumes "wf_table idf c t" and "idf v = k" and "k < c'" and "c \<le> c'"
  shows "wf_table idf c' (table_set k v t)"
proof -
  have "\<forall>p\<in>set (table_set k v t). idf (snd p) = fst p \<and> fst p < c'"
    using assms set_table_set [of k v t] by (fastforce simp: wf_table_def list_all_iff)
  with assms(1) show ?thesis
    by (simp add: wf_table_def list_all_iff distinct_table_set)
qed

lemma wf_table_fresh: "wf_table idf c t \<Longrightarrow> c \<notin> set (map fst t)"
  by (auto simp: wf_table_def list_all_iff)

lemma wf_table_get_id: "wf_table idf c t \<Longrightarrow> table_get t k = Some v \<Longrightarrow> idf v = k \<and> k < c"
  by (auto simp: wf_table_def list_all_iff table_get_def dest!: map_of_SomeD)

lemma wf_table_member:
  "wf_table idf c t \<Longrightarrow> v \<in> set (table_values t) \<Longrightarrow> table_get t (idf v) = Some v"
  by (auto simp: wf_table_def list_all_iff table_get_def table_values_def)

lemma foldl_plus_sum: "foldl (\<lambda>total x. total + f x) z xs = (z::int) + sum_list (map f xs)"
  by (induction xs arbitrary: z) auto

lemma totalScore_sum:
  "totalScore as = (\<Sum>a\<leftarrow>as. case ans_score a of None \<Rightarrow> 0 | Some s \<Rightarrow> s)"
  by (simp add: totalScore_def foldl_plus_sum)

lemma find_filter: "find P (filter Q xs) = find (\<lambda>x. Q x \<and> P x) xs"
  by (induction xs) auto

lemma find_append_new: "find P xs = None \<Longrightarrow> P v \<Longrightarrow> find P (xs @ [v]) = Some v"
  by (induction xs) (auto split: if_splits)

lemma find_Some_member: "find P xs = Some x \<Longrightarrow> x \<in> set xs \<and> P x"
  by (induction xs) (auto split: if_splits)

lemma find_hd_filter: "find P xs = (case filter P xs of [] \<Rightarrow> None | x # _ \<Rightarrow> Some x)"
  by (induction xs) auto

lemma find_table_set_new:
  "find P (map snd t) = None \<Longrightarrow> P v \<Longrightarrow> find P (map snd (table_set k v t)) = Some v"
  by (induction t) (auto split: if_splits)

lemma wf_table_tail: "wf_table idf c (p # ps) \<Longrightarrow> wf_table idf c ps"
  by (simp add: wf_table_def)

lemma find_table_set:
  assumes "wf_table idf c t" and "find P (map snd t) = Some e" and "P (f e)"
  shows "find P (map snd (table_set (idf e) (f e) t)) = Some (f e)"
  using assms
proof (induction t)
  case Nil
  then show ?case by simp
next
  case (Cons p ps)
  show ?case
  proof (cases "P (snd p)")
    case True
    with Cons.prems have "snd p = e" by simp
    moreover from Cons.prems(1) have "idf (snd p) = fst p" by (simp add: wf_table_def)
    ultimately show ?thesis using Cons.prems(3) by simp
  next
    case False
    with Cons.prems have fnd: "find P (map snd ps) = Some e" by simp
    then have "e \<in> snd ` set ps" using find_Some_member [of P "map snd ps" e] by auto
    then obtain k where k: "(k, e) \<in> set ps" by force
    with Cons.prems(1) have "idf e = k" by (auto simp: wf_table_def list_all_iff)
    with k Cons.prems(1) have "fst p \<noteq> idf e" by (force simp: wf_table_def)
    with False Cons.IH [OF wf_table_tail [OF Cons.prems(1)] fnd Cons.prems(3)]
    show ?thesis by simp
  qed
qed

lemma table_set_twice: "table_set k v (table_set k v' t) = table_set k v t"
  by (induction t) auto

lemma sum_table_set:
  fixes g :: "'a \<Rightarrow> int"
  assumes "distinct (map fst t)" and "map_of t k = Some a"
  shows "sum_list (map g (filter Q (map snd (table_set k b t)))) =
         sum_list (map g (filter Q (map snd t))) - (if Q a then g a else 0)
           + (if Q b then g b else 0)"
  using assms
proof (induction t)
  case Nil
  then show ?case by simp
next
  case (Cons p ps)
  show ?case
  proof (cases "fst p = k")
    case True
    with Cons.prems have "snd p = a" by (cases p) simp
    with True show ?thesis by simp
  next
    case False
    with Cons.prems have "map_of ps k = Some a" by (cases p) (simp split: if_splits)
    with Cons.IH Cons.prems(1) False show ?thesis by simp
  qed
qed

lemma sum_insort_key: "sum_list (map f (insort_key k x xs)) = (f x :: int) + sum_list (map f xs)"
  by (induction xs) auto

lemma sum_sort_key: "sum_list (map f (sort_key k xs)) = (sum_list (map f xs) :: int)"
  by (induction xs) (auto simp: sum_insort_key)

lemma len_filter_table_set_upd:
  "map_of t k = Some x \<Longrightarrow> (P v \<longrightarrow> P x) \<Longrightarrow>
   length (filter P (map snd (table_set k v t))) \<le> length (filter P (map snd t))"
  by (induction t) (auto split: if_splits)

lemma len_filter_table_set_other:
  "\<not> P v \<Longrightarrow> length (filter P (map snd (table_set k v t))) \<le> length (filter P (map snd t))"
  by (induction t) auto

lemma len_filter_table_set_first:
  "find P (map snd t) = None \<Longrightarrow> length (filter P (map snd (table_set k v t))) \<le> 1"
  by (induction t) (auto split: if_splits simp: find_None_iff)

section \<open>Every handler keeps the store well formed\<close>

text \<open>The patches the handlers pass to the update methods never touch an id, and every
  create method takes the key from the counter and advances it.\<close>

lemma wf_updateAnswer:
  assumes "wf_store st" and "\<And>a. ans_id (f a) = ans_id a"
  shows "wf_store (snd (updateAnswer st i f))"
proof (cases "table_get (answers st) i")
  case None
  with assms(1) show ?thesis by (simp add: updateAnswer_def)
next
  case (Some a)
  from assms(1) have wf: "wf_table ans_id (answerIdCounter st) (answers st)"
    by (simp add: wf_store_def)
  from wf_table_get_id [OF wf Some] assms(2)
  have "wf_table ans_id (answerIdCounter st) (table_set i (f a) (answers st))"
    by (intro wf_table_set [OF wf]) simp_all
  with assms(1) Some show ?thesis by (simp add: updateAnswer_def wf_store_def)
qed

lemma wf_updateExamAttempt:
  assumes "wf_store st" and "\<And>a. att_id (f a) = att_id a"
  shows "wf_store (snd (updateExamAttempt st i f))"
proof (cases "table_get (examAttempts st) i")
  case None
  with assms(1) show ?thesis by (simp add: updateExamAttempt_def)
next
  case (Some a)
  from assms(1) have wf: "wf_table att_id (attemptIdCounter st) (examAttempts st)"
    by (simp add: wf_store_def)
  from wf_table_get_id [OF wf Some] assms(2)
  have "wf_table att_id (attemptIdCounter st) (table_set i (f a) (examAttempts st))"
    by (intro wf_table_set [OF wf]) simp_all
  with assms(1) Some show ?thesis by (simp add: updateExamAttempt_def wf_store_def)
qed

lemma wf_updateGradingRequest:
  assumes "wf_store st" and "\<And>a. req_id (f a) = req_id a"
  shows "wf_store (snd (updateGradingRequest st i f))"
proof (cases "table_get (gradingRequests st) i")
  case None
  with assms(1) show ?thesis by (simp add: updateGradingRequest_def)
next
  case (Some a)
  from assms(1) have wf: "wf_table req_id (requestIdCounter st) (gradingRequests st)"
    by (simp add: wf_store_def)
  from wf_table_get_id [OF wf Some] assms(2)
  have "wf_table req_id (requestIdCounter st) (table_set i (f a) (gradingRequests st))"
    by (intro wf_table_set [OF wf]) simp_all
  with assms(1) Some show ?thesis by (simp add: updateGradingRequest_def wf_store_def)
qed

lemma wf_createAnswer: "wf_store st \<Longrightarrow> wf_store (snd (createAnswer st attId qId t))"
  by (auto simp: createAnswer_def wf_store_def Let_def intro: wf_table_set)

lemma wf_createExamAttempt: "wf_store st \<Longrightarrow> wf_store (snd (createExamAttempt st e u m n))"
  by (auto simp: createExamAttempt_def wf_store_def Let_def intro: wf_table_set)

lemma wf_createQuestion: "wf_store st \<Longrightarrow> wf_store (snd (createQuestion st e d))"
  by (auto simp: createQuestion_def wf_store_def Let_def intro: wf_table_set)

lemma wf_createGradingRequest: "wf_store st \<Longrightarrow> wf_store (snd (createGradingRequest st a c n))"
  by (auto simp: createGradingRequest_def wf_store_def Let_def intro: wf_table_set)

lemma wf_gradeStored: "wf_store st \<Longrightarrow> wf_store (gradeStored st i qId t)"
  by (simp add: gradeStored_def case_prod_beta wf_updateAnswer split: option.splits)

lemma wf_addQuestion: "wf_store st \<Longrightarrow> wf_store (snd (addQuestion st uid e d))"
  by (simp add: addQuestion_def case_prod_beta wf_createQuestion split: option.splits)

lemma wf_startAttempt: "wf_store st \<Longrightarrow> wf_store (snd (startAttempt sch st uid e n))"
  by (simp add: startAttempt_def case_prod_beta Let_def wf_createExamAttempt split: option.splits)

lemma wf_submitAnswer: "wf_store st \<Longrightarrow> wf_store (snd (submitAnswer st uid a q t))"
  by (simp add: submitAnswer_def case_prod_beta Let_def wf_createAnswer wf_updateAnswer
      wf_gradeStored split: option.splits)

lemma wf_completeAttempt: "wf_store st \<Longrightarrow> wf_store (snd (completeAttempt st uid a n))"
  by (simp add: completeAttempt_def case_prod_beta Let_def wf_updateExamAttempt
      split: option.splits)

lemma wf_gradeAnswer: "wf_store st \<Longrightarrow> wf_store (snd (gradeAnswer st uid a s c))"
  by (simp add: gradeAnswer_def case_prod_beta Let_def wf_updateExamAttempt wf_updateAnswer
      split: option.splits)

lemma wf_requestReview: "wf_store st \<Longrightarrow> wf_store (snd (requestReview st uid a c n))"
  by (simp add: requestReview_def case_prod_beta Let_def wf_createGradingRequest
      split: option.splits)

lemma wf_resolveRequest: "wf_store st \<Longrightarrow> wf_store (snd (resolveRequest st uid r s c sc n))"
  by (simp add: resolveRequest_def case_prod_beta Let_def wf_updateExamAttempt wf_updateAnswer
      wf_updateGradingRequest split: option.splits)

lemma wf_handle: "wf_store st \<Longrightarrow> wf_store (handle sch st r)"
  by (cases r) (simp_all add: wf_addQuestion wf_startAttempt wf_submitAnswer wf_completeAttempt
      wf_gradeAnswer wf_requestReview wf_resolveRequest)

lemma wf_foldl_handle: "wf_store st \<Longrightarrow> wf_store (foldl (handle sch) st rs)"
  by (induction rs arbitrary: st) (simp_all add: wf_handle)

lemma wf_empty_store: "wf_store empty_store"
  by (simp add: wf_store_def wf_table_def empty_store_def)

section \<open>What submitting an answer does\<close>

text \<open>The response and the store that \<open>submitAnswer\<close> returns, for a first answer and
  for a further one, and the answer it leaves stored for the attempt and question.\<close>

lemma gradeStored_answers:
  assumes "table_get (answers st) i = Some a"
  shows "gradeStored st i qId txt =
           (case getQuestion st qId of
              None \<Rightarrow> st
            | Some q \<Rightarrow>
                if q_type q \<noteq> ''essay''
                then st\<lparr> answers := table_set i (a\<lparr> isCorrect := Some (fst (gradeBlock q txt)),
                                                   ans_score := Some (snd (gradeBlock q txt)) \<rparr>)
                                        (answers st) \<rparr>
                else st)"
  using assms
  by (simp add: gradeStored_def updateAnswer_def split: option.splits prod.splits)

lemma submitAnswer_new:
  assumes "getExamAttempt st attId = Some att" and "att_userId att = uid"
    and "completedAt att = None"
    and "find (\<lambda>a. questionId a = qId) (getAnswersByAttempt st attId) = None"
  shows "submitAnswer st uid attId qId txt =
    (Json 201 (Some \<lparr> ans_id = answerIdCounter st, attemptId = attId, questionId = qId,
                      ans_answer = txt, isCorrect = None, ans_score = None,
                      manuallyGraded = False \<rparr>),
     st\<lparr> answerIdCounter := answerIdCounter st + 1,
         answers := table_set (answerIdCounter st)
           (graded (getQuestion st qId) txt
              \<lparr> ans_id = answerIdCounter st, attemptId = attId, questionId = qId,
                ans_answer = txt, isCorrect = None, ans_score = None,
                manuallyGraded = False \<rparr>) (answers st) \<rparr>)"
proof -
  let ?new = "\<lparr> ans_id = answerIdCounter st, attemptId = attId, questionId = qId,
                ans_answer = txt, isCorrect = None, ans_score = None,
                manuallyGraded = False \<rparr>"
  let ?st1 = "st\<lparr> answerIdCounter := answerIdCounter st + 1,
                  answers := table_set (answerIdCounter st) ?new (answers st) \<rparr>"
  have c: "createAnswer st attId qId txt = (?new, ?st1)"
    by (simp add: createAnswer_def Let_def)
  have g: "table_get (answers ?st1) (answerIdCounter st) = Some ?new"
    by (simp add: table_get_set)
  have q: "getQuestion ?st1 qId = getQuestion st qId"
    by (simp add: getQuestion_def)
  have "gradeStored ?st1 (answerIdCounter st) qId txt =
        st\<lparr> answerIdCounter := answerIdCounter st + 1,
         answers := table_set (answerIdCounter st)
           (graded (getQuestion st qId) txt ?new) (answers st) \<rparr>"
    unfolding gradeStored_answers [OF g] q
    by (simp add: graded_def table_set_twice split: option.splits)
  with assms c show ?thesis
    by (simp add: submitAnswer_def Let_def)
qed

lemma submitAnswer_existing:
  assumes "wf_store st"
    and "getExamAttempt st attId = Some att" and "att_userId att = uid"
    and "completedAt att = None"
    and "find (\<lambda>a. questionId a = qId) (getAnswersByAttempt st attId) = Some e"
  shows "submitAnswer st uid attId qId txt =
    (Json 200 (Some (e\<lparr> ans_answer := txt \<rparr>)),
     st\<lparr> answers := table_set (ans_id e)
           (graded (getQuestion st qId) txt (e\<lparr> ans_answer := txt \<rparr>)) (answers st) \<rparr>)"
proof -
  let ?st1 = "st\<lparr> answers := table_set (ans_id e) (e\<lparr> ans_answer := txt \<rparr>) (answers st) \<rparr>"
  from assms(5) have "e \<in> set (table_values (answers st))"
    using find_Some_member [of _ "getAnswersByAttempt st attId" e]
    by (simp add: getAnswersByAttempt_def)
  with assms(1) have e: "table_get (answers st) (ans_id e) = Some e"
    by (auto simp: wf_store_def intro: wf_table_member)
  then have u: "updateAnswer st (ans_id e) (\<lambda>a. a\<lparr> ans_answer := txt \<rparr>) =
                  (Some (e\<lparr> ans_answer := txt \<rparr>), ?st1)"
    by (simp add: updateAnswer_def)
  have g: "table_get (answers ?st1) (ans_id e) = Some (e\<lparr> ans_answer := txt \<rparr>)"
    by (simp add: table_get_set)
  have q: "getQuestion ?st1 qId = getQuestion st qId"
    by (simp add: getQuestion_def)
  have "gradeStored ?st1 (ans_id e) qId txt =
        st\<lparr> answers := table_set (ans_id e)
           (graded (getQuestion st qId) txt (e\<lparr> ans_answer := txt \<rparr>)) (answers st) \<rparr>"
    unfolding gradeStored_answers [OF g] q
    by (simp add: graded_def table_set_twice split: option.splits)
  with assms u show ?thesis
    by (simp add: submitAnswer_def Let_def)
qed

lemma graded_fields [simp]:
  "ans_id (graded qo txt a) = ans_id a" "attemptId (graded qo txt a) = attemptId a"
  "questionId (graded qo txt a) = questionId a" "ans_answer (graded qo txt a) = ans_answer a"
  by (simp_all add: graded_def split: option.splits)

lemma submitAnswer_stored:
  assumes "wf_store st"
    and "getExamAttempt st attId = Some att" and "att_userId att = uid"
    and "completedAt att = None"
  shows "find (\<lambda>a. questionId a = qId)
           (getAnswersByAttempt (snd (submitAnswer st uid attId qId txt)) attId) =
         Some (graded (getQuestion st qId) txt
           (case find (\<lambda>a. questionId a = qId) (getAnswersByAttempt st attId) of
              None \<Rightarrow> \<lparr> ans_id = answerIdCounter st, attemptId = attId, questionId = qId,
                        ans_answer = txt, isCorrect = None, ans_score = None,
                        manuallyGraded = False \<rparr>
            | Some e \<Rightarrow> e\<lparr> ans_answer := txt \<rparr>))"
proof (cases "find (\<lambda>a. questionId a = qId) (getAnswersByAttempt st attId)")
  case None
  let ?P = "\<lambda>a. attemptId a = attId \<and> questionId a = qId"
  from assms(1) have "answerIdCounter st \<notin> set (map fst (answers st))"
    using wf_table_fresh [of ans_id "answerIdCounter st" "answers st"]
    by (simp add: wf_store_def)
  then have app: "table_set (answerIdCounter st) v (answers st) =
                    answers st @ [(answerIdCounter st, v)]" for v
    by (rule table_set_fresh)
  from None have "find ?P (map snd (answers st)) = None"
    by (simp add: getAnswersByAttempt_def table_values_def find_filter)
  then show ?thesis
    using None submitAnswer_new [OF assms(2-4) None, of "txt"]
    by (simp add: getAnswersByAttempt_def table_values_def find_filter app find_append_new)
next
  case (Some e)
  let ?P = "\<lambda>a. attemptId a = attId \<and> questionId a = qId"
  let ?f = "\<lambda>e. graded (getQuestion st qId) txt (e\<lparr> ans_answer := txt \<rparr>)"
  from Some have fnd: "find ?P (map snd (answers st)) = Some e"
    by (simp add: getAnswersByAttempt_def table_values_def find_filter)
  then have "?P e" using find_Some_member [of ?P _ e] by blast
  then have P: "?P (?f e)" by simp
  from assms(1) have wf: "wf_table ans_id (answerIdCounter st) (answers st)"
    by (simp add: wf_store_def)
  from find_table_set [of ans_id _ _ ?P e ?f, OF wf fnd P]
  show ?thesis
    using Some submitAnswer_existing [OF assms Some, of "txt"]
    by (simp add: getAnswersByAttempt_def table_values_def find_filter)
qed

section \<open>What starting an attempt does\<close>

text \<open>A successful \<open>startAttempt\<close> either found an attempt in progress and changed
  nothing, or found none and created one; in both cases the exam is active.\<close>

lemma startAttempt_cases:
  assumes "startAttempt sch st uid eid now = (Json c a, st1)"
  shows "(c = 200 \<and> st1 = st \<and>
          find (\<lambda>a. att_examId a = eid \<and> completedAt a = None) (getExamAttemptsByUser st uid) = Some a)
       \<or> (c = 201 \<and>
          find (\<lambda>a. att_examId a = eid \<and> completedAt a = None) (getExamAttemptsByUser st uid) = None \<and>
          sch eid uid (foldl (\<lambda>total q. total + q_points q) 0 (getQuestionsByExam st eid)) \<and>
          (a, st1) = createExamAttempt st eid uid
             (foldl (\<lambda>total q. total + q_points q) 0 (getQuestionsByExam st eid)) now)"
  using assms
  by (auto simp: startAttempt_def Let_def split: option.splits if_splits prod.splits)

lemma startAttempt_Json:
  assumes "startAttempt sch st uid eid now = (Json c a, st1)"
  shows "\<exists>ex. getExam st eid = Some ex \<and> exam_status ex = ''active''"
  using assms
  by (auto simp: startAttempt_def Let_def split: option.splits if_splits prod.splits)

lemma startAttempt_rejected:
  assumes "getExam st eid = Some ex" and "exam_status ex = ''active''"
    and "find (\<lambda>a. att_examId a = eid \<and> completedAt a = None) (getExamAttemptsByUser st uid) = None"
    and "\<not> sch eid uid (foldl (\<lambda>total q. total + q_points q) 0 (getQuestionsByExam st eid))"
  shows "startAttempt sch st uid eid now = (Error 400 ''Invalid input data'', st)"
  using assms by (simp add: startAttempt_def Let_def)

section \<open>No handler changes the maximum score of an attempt\<close>

text \<open>The handlers write the attempts table through \<open>createExamAttempt\<close>, which in
  a well-formed store takes a fresh key, and through \<open>updateExamAttempt\<close> with patches
  that leave \<open>maxScore\<close> alone.\<close>

lemma mx_updateExamAttempt:
  assumes "\<And>a. maxScore (f a) = maxScore a"
  shows "map_option maxScore (getExamAttempt (snd (updateExamAttempt st i f)) k) =
         map_option maxScore (getExamAttempt st k)"
  using assms
  by (simp add: updateExamAttempt_def getExamAttempt_def table_get_set split: option.splits)

lemma mx_createExamAttempt:
  assumes "wf_store st" and "getExamAttempt st k = Some a"
  shows "getExamAttempt (snd (createExamAttempt st e u m n)) k = Some a"
proof -
  from assms have "k < attemptIdCounter st"
    using wf_table_get_id [of att_id "attemptIdCounter st" "examAttempts st" k a]
    by (simp add: wf_store_def getExamAttempt_def)
  with assms(2) show ?thesis
    by (simp add: createExamAttempt_def getExamAttempt_def table_get_set Let_def)
qed

lemma att_updateAnswer [simp]: "examAttempts (snd (updateAnswer st i f)) = examAttempts st"
  by (simp add: updateAnswer_def split: option.splits)

lemma att_updateGradingRequest [simp]:
  "examAttempts (snd (updateGradingRequest st i f)) = examAttempts st"
  by (simp add: updateGradingRequest_def split: option.splits)

lemma att_gradeStored [simp]: "examAttempts (gradeStored st i q t) = examAttempts st"
  by (simp add: gradeStored_def case_prod_beta split: option.splits)

lemma getExamAttempt_cong: "examAttempts st' = examAttempts st \<Longrightarrow> getExamAttempt st' k = getExamAttempt st k"
  by (simp add: getExamAttempt_def)

lemma mx_addQuestion:
  "getExamAttempt (snd (addQuestion st uid e d)) k = getExamAttempt st k"
  by (simp add: addQuestion_def createQuestion_def getExamAttempt_def Let_def split: option.splits)

lemma mx_submitAnswer:
  "getExamAttempt (snd (submitAnswer st uid a q t)) k = getExamAttempt st k"
  by (rule getExamAttempt_cong)
     (simp add: submitAnswer_def createAnswer_def case_prod_beta Let_def split: option.splits)

lemma mx_requestReview:
  "getExamAttempt (snd (requestReview st uid a c n)) k = getExamAttempt st k"
  by (rule getExamAttempt_cong)
     (simp add: requestReview_def createGradingRequest_def Let_def split: option.splits)

lemma mx_completeAttempt:
  "map_option maxScore (getExamAttempt (snd (completeAttempt st uid a n)) k) =
   map_option maxScore (getExamAttempt st k)"
  by (simp add: completeAttempt_def case_prod_beta Let_def mx_updateExamAttempt split: option.splits)

lemma mx_gradeAnswer:
  "map_option maxScore (getExamAttempt (snd (gradeAnswer st uid a s c)) k) =
   map_option maxScore (getExamAttempt st k)"
  by (simp add: gradeAnswer_def case_prod_beta Let_def mx_updateExamAttempt
      getExamAttempt_cong [of "snd (updateAnswer _ _ _)"] split: option.splits)

lemma mx_resolveRequest:
  "map_option maxScore (getExamAttempt (snd (resolveRequest st uid r s c sc n)) k) =
   map_option maxScore (getExamAttempt st k)"
  by (simp add: resolveRequest_def case_prod_beta Let_def mx_updateExamAttempt
      getExamAttempt_cong [of "snd (updateAnswer _ _ _)"]
      getExamAttempt_cong [of "snd (updateGradingRequest _ _ _)"] split: option.splits)

lemma mx_startAttempt:
  assumes "wf_store st" and "getExamAttempt st k = Some a"
  shows "getExamAttempt (snd (startAttempt sch st uid e n)) k = Some a"
  using assms
  by (simp add: startAttempt_def case_prod_beta Let_def mx_createExamAttempt split: option.splits)

lemma mx_handle:
  assumes "wf_store st" and "map_option maxScore (getExamAttempt st k) = Some m"
  shows "map_option maxScore (getExamAttempt (handle sch st r) k) = Some m"
proof (cases r)
  case (StartAttempt uid e n)
  from assms(2) obtain a where "getExamAttempt st k = Some a" and "maxScore a = m" by auto
  with mx_startAttempt [OF assms(1), of k a sch uid e n] StartAttempt show ?thesis by simp
qed (use assms(2) in \<open>simp_all add: mx_addQuestion mx_submitAnswer mx_requestReview
      mx_completeAttempt mx_gradeAnswer mx_resolveRequest\<close>)

lemma mx_foldl_handle:
  "wf_store st \<Longrightarrow> map_option maxScore (getExamAttempt st k) = Some m \<Longrightarrow>
   map_option maxScore (getExamAttempt (foldl (handle sch) st rs) k) = Some m"
proof (induction rs arbitrary: st)
  case Nil
  then show ?case by simp
next
  case (Cons r rs)
  from Cons.IH [OF wf_handle [OF Cons.prems(1)] mx_handle [OF Cons.prems]]
  show ?case by simp
qed

section \<open>At most one attempt in progress per user and exam\<close>

text \<open>No handler lets the number of attempts in progress of a user on an exam grow
  beyond one: an update never turns a completed attempt into one in progress nor moves
  it to another user or exam, and an attempt is created only when the user has none in
  progress on the exam.\<close>

lemma inProgress_filter:
  "inProgress st u e =
     filter (\<lambda>a. att_userId a = u \<and> att_examId a = e \<and> completedAt a = None)
       (map snd (examAttempts st))"
  by (simp add: inProgress_def getExamAttemptsByUser_def table_values_def)

lemma ip_updateExamAttempt:
  assumes "examAttempts st' = examAttempts st"
    and "\<And>a. att_userId (f a) = att_userId a" and "\<And>a. att_examId (f a) = att_examId a"
    and "\<And>a. completedAt (f a) = None \<Longrightarrow> completedAt a = None"
  shows "length (inProgress (snd (updateExamAttempt st' i f)) u e) \<le> length (inProgress st u e)"
proof (cases "table_get (examAttempts st) i")
  case None
  with assms(1) show ?thesis by (simp add: updateExamAttempt_def inProgress_filter)
next
  case (Some x)
  then have "map_of (examAttempts st) i = Some x" by (simp add: table_get_def)
  from len_filter_table_set_upd [OF this, of _ "f x"] assms Some
  show ?thesis by (simp add: updateExamAttempt_def inProgress_filter)
qed

lemma ip_startAttempt:
  assumes "length (inProgress st u e) \<le> 1"
  shows "length (inProgress (snd (startAttempt sch st uid eid now)) u e) \<le> 1"
proof (cases "startAttempt sch st uid eid now")
  case (Pair resp st1)
  show ?thesis
  proof (cases resp)
    case (Error c m)
    with Pair have "st1 = st"
      by (auto simp: startAttempt_def Let_def split: option.splits if_splits prod.splits)
    with assms Pair show ?thesis by simp
  next
    case (Json c a1)
    let ?Q = "\<lambda>a. att_userId a = uid \<and> att_examId a = eid \<and> completedAt a = None"
    from Pair Json have run: "startAttempt sch st uid eid now = (Json c a1, st1)" by simp
    from startAttempt_cases [OF run]
    show ?thesis
    proof (elim disjE conjE)
      assume "st1 = st"
      with assms Pair show ?thesis by simp
    next
      assume none: "find (\<lambda>a. att_examId a = eid \<and> completedAt a = None)
                      (getExamAttemptsByUser st uid) = None"
        and cr: "(a1, st1) = createExamAttempt st eid uid
             (foldl (\<lambda>total q. total + q_points q) 0 (getQuestionsByExam st eid)) now"
      from none have n: "find ?Q (map snd (examAttempts st)) = None"
        by (simp add: getExamAttemptsByUser_def table_values_def find_filter)
      from cr have a1: "att_userId a1 = uid" "att_examId a1 = eid"
        and st1: "examAttempts st1 = table_set (attemptIdCounter st) a1 (examAttempts st)"
        by (simp_all add: createExamAttempt_def Let_def)
      show ?thesis
      proof (cases "u = uid \<and> e = eid")
        case True
        with len_filter_table_set_first [OF n, of "attemptIdCounter st" a1] Pair st1
        show ?thesis by (simp add: inProgress_filter)
      next
        case False
        with a1 have "\<not> (att_userId a1 = u \<and> att_examId a1 = e \<and> completedAt a1 = None)"
          by auto
        from len_filter_table_set_other
          [of "\<lambda>a. att_userId a = u \<and> att_examId a = e \<and> completedAt a = None" a1
              "attemptIdCounter st" "examAttempts st"] this assms Pair st1
        show ?thesis by (simp add: inProgress_filter)
      qed
    qed
  qed
qed

lemma resolveRequest_attempts_cases:
  fixes Q :: "store \<Rightarrow> bool"
  assumes "\<And>st'. examAttempts st' = examAttempts st \<Longrightarrow> Q st'"
    and "\<And>st' i tot. examAttempts st' = examAttempts st \<Longrightarrow>
           Q (snd (updateExamAttempt st' i (\<lambda>a. a\<lparr> att_score := Some tot \<rparr>)))"
  shows "Q (snd (resolveRequest st uid r s c sc n))"
  by (simp add: resolveRequest_def case_prod_beta Let_def assms split: option.splits)

lemma ip_upd:
  assumes "examAttempts st' = examAttempts st"
    and "\<And>a. att_userId (f a) = att_userId a" and "\<And>a. att_examId (f a) = att_examId a"
    and "\<And>a. completedAt (f a) = None \<longrightarrow> completedAt a = None"
  shows "length (inProgress (snd (updateExamAttempt st' i f)) u e) \<le> length (inProgress st u e)"
  using ip_updateExamAttempt [OF assms(1), of f i u e] assms(2-4) by simp

lemma ip_completeAttempt:
  "length (inProgress (snd (completeAttempt st uid a n)) u e) \<le> length (inProgress st u e)"
  by (simp add: completeAttempt_def case_prod_beta Let_def ip_upd split: option.splits)

lemma ip_gradeAnswer:
  "length (inProgress (snd (gradeAnswer st uid a s c)) u e) \<le> length (inProgress st u e)"
  by (simp add: gradeAnswer_def case_prod_beta Let_def ip_upd split: option.splits)

lemma ip_resolveRequest:
  "length (inProgress (snd (resolveRequest st uid r s c sc n)) u e) \<le> length (inProgress st u e)"
proof (rule resolveRequest_attempts_cases)
  fix st' :: store assume "examAttempts st' = examAttempts st"
  then show "length (inProgress st' u e) \<le> length (inProgress st u e)"
    by (simp add: inProgress_filter)
next
  fix st' :: store and i tot assume "examAttempts st' = examAttempts st"
  then show "length (inProgress (snd (updateExamAttempt st' i (\<lambda>a. a\<lparr> att_score := Some tot \<rparr>))) u e)
               \<le> length (inProgress st u e)"
    by (intro ip_upd) simp_all
qed

lemma ip_handle:
  assumes "length (inProgress st u e) \<le> 1"
  shows "length (inProgress (handle sch st r) u e) \<le> 1"
proof (cases r)
  case (AddQuestion uid eid d)
  have "examAttempts (snd (addQuestion st uid eid d)) = examAttempts st"
    by (simp add: addQuestion_def createQuestion_def Let_def split: option.splits)
  with assms AddQuestion show ?thesis by (simp add: inProgress_filter)
next
  case (StartAttempt uid eid now)
  with ip_startAttempt [OF assms] show ?thesis by simp
next
  case (SubmitAnswer uid a q t)
  have "examAttempts (snd (submitAnswer st uid a q t)) = examAttempts st"
    by (simp add: submitAnswer_def createAnswer_def case_prod_beta Let_def split: option.splits)
  with assms SubmitAnswer show ?thesis by (simp add: inProgress_filter)
next
  case (CompleteAttempt uid a n)
  with assms ip_completeAttempt [of st uid a n u e] show ?thesis by simp
next
  case (GradeAnswer uid a s c)
  with assms ip_gradeAnswer [of st uid a s c u e] show ?thesis by simp
next
  case (RequestReview uid a c n)
  have "examAttempts (snd (requestReview st uid a c n)) = examAttempts st"
    by (simp add: requestReview_def createGradingRequest_def Let_def split: option.splits)
  with assms RequestReview show ?thesis by (simp add: inProgress_filter)
next
  case (ResolveRequest uid r s c sc n)
  with assms ip_resolveRequest [of st uid r s c sc n u e] show ?thesis by simp
qed

lemma one_in_progress_kept:
  "length (inProgress st u e) \<le> 1 \<Longrightarrow> length (inProgress (foldl (handle sch) st rs) u e) \<le> 1"
proof (induction rs arbitrary: st)
  case Nil
  then show ?case by simp
next
  case (Cons r rs)
  from Cons.IH [OF ip_handle [OF Cons.prems]] show ?case by simp
qed

lemma one_in_progress_reachable:
  assumes "examAttempts st = []"
  shows "length (inProgress (foldl (handle sch) st rs) u e) \<le> 1"
  using assms by (intro one_in_progress_kept) (simp add: inProgress_filter)

section \<open>Where the score bounds are kept\<close>

text \<open>
  In a well-formed store whose questions have no negative points, submitting an answer
  and grading it by hand keep the score bounds, and so does resolving a grading request
  when the supplied score, if there is one, is not negative.
\<close>

lemma list_all_table_set:
  "list_all B (map snd t) \<Longrightarrow> B v \<Longrightarrow> list_all B (map snd (table_set k v t))"
  using set_table_set [of k v t] by (fastforce simp: list_all_iff)

lemma score_bounds_step:
  assumes "score_bounds st" and "questions st' = questions st"
    and "answers st' = answers st \<or>
         (\<exists>k v. answers st' = table_set k v (answers st) \<and>
            (case ans_score v of
               None \<Rightarrow> True
             | Some s \<Rightarrow> (case getQuestion st (questionId v) of
                            None \<Rightarrow> False
                          | Some q \<Rightarrow> 0 \<le> s \<and> s \<le> q_points q)))"
  shows "score_bounds st'"
proof -
  let ?B = "\<lambda>a. case ans_score a of
               None \<Rightarrow> True
             | Some s \<Rightarrow> (case getQuestion st (questionId a) of
                            None \<Rightarrow> False
                          | Some q \<Rightarrow> 0 \<le> s \<and> s \<le> q_points q)"
  have q: "getQuestion st' i = getQuestion st i" for i
    using assms(2) by (simp add: getQuestion_def)
  from assms(1) have all: "list_all ?B (map snd (answers st))"
    by (simp add: score_bounds_def table_values_def)
  from assms(3) have "list_all ?B (map snd (answers st'))"
  proof
    assume "answers st' = answers st"
    with all show ?thesis by simp
  next
    assume "\<exists>k v. answers st' = table_set k v (answers st) \<and> ?B v"
    then obtain k v where "answers st' = table_set k v (answers st)" and "?B v" by blast
    with list_all_table_set [of ?B "answers st" v k, OF all] show ?thesis by simp
  qed
  then show ?thesis unfolding score_bounds_def table_values_def q .
qed

lemma gradeBlock_range:
  "0 \<le> q_points q \<Longrightarrow> 0 \<le> snd (gradeBlock q txt) \<and> snd (gradeBlock q txt) \<le> q_points q"
  by (simp add: gradeBlock_def Let_def)

lemma question_points_nonneg:
  "list_all (\<lambda>q. 0 \<le> q_points q) (table_values (questions st)) \<Longrightarrow>
   getQuestion st i = Some q \<Longrightarrow> 0 \<le> q_points q"
  by (auto simp: list_all_iff table_values_def getQuestion_def table_get_def dest!: map_of_SomeD)

lemma score_bounds_member:
  assumes "score_bounds st" and "a \<in> set (table_values (answers st))" and "ans_score a = Some s"
  shows "\<exists>q. getQuestion st (questionId a) = Some q \<and> 0 \<le> s \<and> s \<le> q_points q"
proof -
  from assms(1,2) have "case ans_score a of
               None \<Rightarrow> True
             | Some s \<Rightarrow> (case getQuestion st (questionId a) of
                            None \<Rightarrow> False
                          | Some q \<Rightarrow> 0 \<le> s \<and> s \<le> q_points q)"
    by (simp add: score_bounds_def list_all_iff)
  with assms(3) show ?thesis by (cases "getQuestion st (questionId a)") simp_all
qed

lemma score_bounds_submitAnswer:
  assumes wf: "wf_store st"
    and pts: "list_all (\<lambda>q. 0 \<le> q_points q) (table_values (questions st))"
    and sb: "score_bounds st"
  shows "score_bounds (snd (submitAnswer st uid attId qId txt))"
proof (cases "\<exists>att. getExamAttempt st attId = Some att \<and> att_userId att = uid \<and> completedAt att = None")
  case False
  then have "snd (submitAnswer st uid attId qId txt) = st"
    by (auto simp: submitAnswer_def split: option.splits)
  with sb show ?thesis by simp
next
  case True
  then obtain att where att: "getExamAttempt st attId = Some att" "att_userId att = uid"
    "completedAt att = None" by blast
  show ?thesis
  proof (cases "find (\<lambda>a. questionId a = qId) (getAnswersByAttempt st attId)")
    case None
    let ?new = "\<lparr> ans_id = answerIdCounter st, attemptId = attId, questionId = qId,
                ans_answer = txt, isCorrect = None, ans_score = None,
                manuallyGraded = False \<rparr>"
    have "case ans_score (graded (getQuestion st qId) txt ?new) of
               None \<Rightarrow> True
             | Some s \<Rightarrow> (case getQuestion st (questionId (graded (getQuestion st qId) txt ?new)) of
                            None \<Rightarrow> False
                          | Some q \<Rightarrow> 0 \<le> s \<and> s \<le> q_points q)"
      using gradeBlock_range question_points_nonneg [OF pts]
      by (auto simp: graded_def split: option.splits)
    then show ?thesis
      using submitAnswer_new [OF att None, of "txt"]
      by (intro score_bounds_step [OF sb]) auto
  next
    case (Some e)
    let ?e = "e\<lparr> ans_answer := txt \<rparr>"
    from Some have mem: "e \<in> set (table_values (answers st))" and qe: "questionId e = qId"
      using find_Some_member [of "\<lambda>a. questionId a = qId" "getAnswersByAttempt st attId" e]
      by (simp_all add: getAnswersByAttempt_def)
    have "case ans_score (graded (getQuestion st qId) txt ?e) of
               None \<Rightarrow> True
             | Some s \<Rightarrow> (case getQuestion st (questionId (graded (getQuestion st qId) txt ?e)) of
                            None \<Rightarrow> False
                          | Some q \<Rightarrow> 0 \<le> s \<and> s \<le> q_points q)"
    proof (cases "ans_score e")
      case None
      then show ?thesis
        using gradeBlock_range question_points_nonneg [OF pts] qe
        by (auto simp: graded_def split: option.splits)
    next
      case (Some s)
      from score_bounds_member [OF sb mem Some] show ?thesis
        using Some gradeBlock_range question_points_nonneg [OF pts] qe
        by (auto simp: graded_def split: option.splits)
    qed
    then show ?thesis
      using submitAnswer_existing [OF wf att Some, of "txt"]
      by (intro score_bounds_step [OF sb]) auto
  qed
qed


lemma score_bounds_set:
  assumes "score_bounds st" and "questions st' = questions st"
    and "answers st' = table_set k v (answers st)"
    and "case ans_score v of
               None \<Rightarrow> True
             | Some s \<Rightarrow> (case getQuestion st (questionId v) of
                            None \<Rightarrow> False
                          | Some q \<Rightarrow> 0 \<le> s \<and> s \<le> q_points q)"
  shows "score_bounds st'"
  using assms(3,4) by (intro score_bounds_step [OF assms(1,2)]) blast

lemma gradeAnswer_questions: "questions (snd (gradeAnswer st uid ansId sc c)) = questions st"
  by (simp add: gradeAnswer_def updateAnswer_def updateExamAttempt_def case_prod_beta Let_def
      split: option.splits)

lemma gradeAnswer_answers:
  "answers (snd (gradeAnswer st uid ansId sc c)) = answers st \<or>
   (\<exists>ans s q. getAnswer st ansId = Some ans \<and> sc = Some s \<and>
      getQuestion st (questionId ans) = Some q \<and> 0 \<le> s \<and> s \<le> q_points q \<and>
      answers (snd (gradeAnswer st uid ansId sc c)) =
        table_set ansId (ans\<lparr> ans_score := Some s, isCorrect := Some c,
                                manuallyGraded := True \<rparr>) (answers st))"
  by (simp add: gradeAnswer_def updateAnswer_def updateExamAttempt_def getAnswer_def
      case_prod_beta Let_def split: option.splits)

lemma score_bounds_gradeAnswer:
  assumes "score_bounds st"
  shows "score_bounds (snd (gradeAnswer st uid ansId sc c))"
  using gradeAnswer_answers [of st uid ansId sc c]
proof (elim disjE exE conjE)
  assume "answers (snd (gradeAnswer st uid ansId sc c)) = answers st"
  then show ?thesis
    by (intro score_bounds_step [OF assms gradeAnswer_questions]) simp
next
  fix ans s q
  assume "getQuestion st (questionId ans) = Some q" "0 \<le> s" "s \<le> q_points q"
    and eq: "answers (snd (gradeAnswer st uid ansId sc c)) =
        table_set ansId (ans\<lparr> ans_score := Some s, isCorrect := Some c,
                                manuallyGraded := True \<rparr>) (answers st)"
  then show ?thesis
    by (intro score_bounds_set [OF assms gradeAnswer_questions eq]) simp
qed

lemma resolveRequest_questions:
  "questions (snd (resolveRequest st uid reqId status comment sc now)) = questions st"
  by (simp add: resolveRequest_def updateAnswer_def updateExamAttempt_def
      updateGradingRequest_def case_prod_beta Let_def split: option.splits)

lemma resolveRequest_answers:
  "answers (snd (resolveRequest st uid reqId status comment sc now)) = answers st \<or>
   (\<exists>r ans s q. getGradingRequest st reqId = Some r \<and> getAnswer st (answerId r) = Some ans \<and>
      getQuestion st (questionId ans) = Some q \<and> sc = Some s \<and> s \<le> q_points q \<and>
      answers (snd (resolveRequest st uid reqId status comment sc now)) =
        answers (snd (updateAnswer st (ans_id ans)
           (\<lambda>a. a\<lparr> ans_score := Some s, isCorrect := Some (s > 0),
                    manuallyGraded := True \<rparr>))))"
  by (simp add: resolveRequest_def updateAnswer_def updateExamAttempt_def
      updateGradingRequest_def getQuestion_def getAnswer_def
      case_prod_beta Let_def split: option.splits)

lemma score_bounds_resolveRequest:
  assumes wf: "wf_store st" and sb: "score_bounds st"
    and nonneg: "case sc of None \<Rightarrow> True | Some s \<Rightarrow> 0 \<le> s"
  shows "score_bounds (snd (resolveRequest st uid reqId status comment sc now))"
  using resolveRequest_answers [of st uid reqId status comment sc now]
proof (elim disjE exE conjE)
  assume "answers (snd (resolveRequest st uid reqId status comment sc now)) = answers st"
  then show ?thesis
    by (intro score_bounds_step [OF sb resolveRequest_questions]) simp
next
  fix r :: gradingRequest and ans s q
  assume a: "getAnswer st (answerId r) = Some ans" "getQuestion st (questionId ans) = Some q"
    "sc = Some s" "s \<le> q_points q"
    and eq: "answers (snd (resolveRequest st uid reqId status comment sc now)) =
        answers (snd (updateAnswer st (ans_id ans)
           (\<lambda>a. a\<lparr> ans_score := Some s, isCorrect := Some (s > 0),
                    manuallyGraded := True \<rparr>)))"
  from wf a(1) have "ans_id ans = answerId r"
    using wf_table_get_id [of ans_id "answerIdCounter st" "answers st" "answerId r" ans]
    by (simp add: wf_store_def getAnswer_def)
  with a(1) eq have eq': "answers (snd (resolveRequest st uid reqId status comment sc now)) =
      table_set (answerId r)
        (ans\<lparr> ans_score := Some s, isCorrect := Some (s > 0), manuallyGraded := True \<rparr>)
        (answers st)"
    by (simp add: updateAnswer_def getAnswer_def)
  from a nonneg show ?thesis
    by (intro score_bounds_set [OF sb resolveRequest_questions eq']) simp
qed

section \<open>Errors of the grading-request handler before its first write\<close>

text \<open>Every error of \<open>resolveRequest\<close> other than the two it raises after updating
  the request leaves the store as it was.\<close>

lemma resolveRequest_early_errors:
  assumes "fst (resolveRequest st uid reqId status comment sc now) = Error c m"
    and "m \<noteq> ''Question not found''" and "m \<noteq> ''Score cannot exceed question points''"
  shows "snd (resolveRequest st uid reqId status comment sc now) = st"
proof -
  have "(\<exists>c. fst (resolveRequest st uid reqId status comment sc now) =
               Error c ''Question not found'')
      \<or> (\<exists>c. fst (resolveRequest st uid reqId status comment sc now) =
               Error c ''Score cannot exceed question points'')
      \<or> (\<exists>c b. fst (resolveRequest st uid reqId status comment sc now) = Json c b)
      \<or> snd (resolveRequest st uid reqId status comment sc now) = st"
    by (simp add: resolveRequest_def case_prod_beta Let_def split: option.splits)
  with assms show ?thesis by auto
qed

section \<open>Facts about the demo store\<close>

lemmas store_ops = getExam_def getQuestion_def getExamAttempt_def getAnswer_def
  getGradingRequest_def updateAnswer_def updateExamAttempt_def updateGradingRequest_def
  getAnswersByAttempt_def getExamAttemptsByUser_def table_get_def table_values_def
  totalScore_def

lemmas demo_records = demo_exam_def demo_q1_def demo_q2_def demo_q3_def
  demo_q4_def demo_q5_def demo_attempt_def demo_answer1_def demo_answer2_def
  demo_answer3_def demo_request_def

lemmas demo_defs = demo_store_def demo_records

lemma wf_demo_store: "wf_store demo_store"
  by (simp add: wf_store_def wf_table_def demo_defs)

lemma demo_lookups:
  "getExamAttempt demo_store 1 = Some demo_attempt"
  "getGradingRequest demo_store 1 = Some demo_request"
  "getAnswer demo_store 1 = Some demo_answer1"
  "getExam demo_store 1 = Some demo_exam"
  "getQuestion demo_store 1 = Some demo_q1"
  "getQuestion demo_store 3 = Some demo_q3"
  "getQuestion demo_store 4 = Some demo_q4"
  "getQuestion demo_store 5 = Some demo_q5"
  by (simp_all add: store_ops demo_store_def)

lemma demo_fields:
  "att_userId demo_attempt = 1" "completedAt demo_attempt = None" "att_examId demo_attempt = 1"
  "answerId demo_request = 1" "attemptId demo_answer1 = 1" "questionId demo_answer1 = 1"
  "exam_userId demo_exam = 1" "exam_status demo_exam = ''active''"
  "q_points demo_q1 = 5" "q_type demo_q1 = ''multiple_choice''"
  "q_correctAnswer demo_q1 = JStr ''A''"
  "q_type demo_q3 = ''essay''" "q_type demo_q4 = ''short_answer''"
  "q_type demo_q5 = ''true_false''" "q_points demo_q5 = 2"
  "q_correctAnswer demo_q5 = JStr ''false''"
  "ans_score demo_answer1 = Some 2" "ans_id demo_answer1 = 1"
  by (simp_all add: demo_defs)

lemma demo_answers_of_attempt:
  "getAnswersByAttempt demo_store 1 = [demo_answer1, demo_answer2, demo_answer3]"
  by (simp add: store_ops demo_defs)

lemma demo_old_answers:
  "find (\<lambda>a. questionId a = 1) (getAnswersByAttempt demo_store 1) = Some demo_answer1"
  "find (\<lambda>a. questionId a = 3) (getAnswersByAttempt demo_store 1) = Some demo_answer3"
  "find (\<lambda>a. questionId a = 4) (getAnswersByAttempt demo_store 1) = None"
  "find (\<lambda>a. questionId a = 5) (getAnswersByAttempt demo_store 1) = None"
  by (simp_all add: demo_answers_of_attempt demo_records)

lemma demo_start_user2:
  "startAttempt int32_schema demo_store 2 1 7000 =
     (Json 201 demo_attempt2,
      demo_store\<lparr> attemptIdCounter := 3,
                  examAttempts := [(1, demo_attempt), (2, demo_attempt2)] \<rparr>)"
  by (simp add: startAttempt_def createExamAttempt_def getQuestionsByExam_def store_ops
      demo_defs demo_attempt2_def int32_schema_def Let_def)

text \<open>With questions worth 2147483647 and 1 the computed maximum is 2147483648: the
  schema of 32-bit integer columns rejects it, the handler answers 400 and the store
  is left as it was.\<close>

lemma startAttempt_rejects_large_maxScore:
  "startAttempt int32_schema
     (demo_store\<lparr> questions := [(1, demo_q1\<lparr> q_points := 2147483647 \<rparr>), (2, demo_q2)] \<rparr>)
     2 1 7000 =
   (Error 400 ''Invalid input data'',
    demo_store\<lparr> questions := [(1, demo_q1\<lparr> q_points := 2147483647 \<rparr>), (2, demo_q2)] \<rparr>)"
  by (simp add: startAttempt_def getQuestionsByExam_def store_ops demo_defs int32_schema_def
      Let_def)

section \<open>Completing an attempt\<close>

text \<open>
  Claim C1. When the attempt exists, belongs to the caller and is not completed,
  CompleteAttempt answers with the attempt in which \<open>completedAt\<close> is the current time,
  \<open>timeSpent\<close> is the floor of (completedAt - startedAt) / 1000, and \<open>score\<close> is the sum
  of the scores of those answers in the store whose \<open>attemptId\<close> is this attempt's id,
  a null score counting 0; the attempt stored under that id afterwards is this same
  record, and the answers are untouched.
\<close>

theorem completeAttempt_sets_fields:
  assumes "getExamAttempt st attId = Some a" and "att_userId a = uid" and "completedAt a = None"
  shows "fst (completeAttempt st uid attId now) =
           Json 200 (Some (a\<lparr> completedAt := Some now,
                              timeSpent := Some ((now - startedAt a) div 1000),
                              att_score := Some
                                (\<Sum>x\<leftarrow>filter (\<lambda>x. attemptId x = attId) (table_values (answers st)).
                                   case ans_score x of None \<Rightarrow> 0 | Some s \<Rightarrow> s) \<rparr>))
       \<and> getExamAttempt (snd (completeAttempt st uid attId now)) attId =
           Some (a\<lparr> completedAt := Some now,
                    timeSpent := Some ((now - startedAt a) div 1000),
                    att_score := Some
                      (\<Sum>x\<leftarrow>filter (\<lambda>x. attemptId x = attId) (table_values (answers st)).
                         case ans_score x of None \<Rightarrow> 0 | Some s \<Rightarrow> s) \<rparr>)
       \<and> answers (snd (completeAttempt st uid attId now)) = answers st"
  using assms
  by (simp add: completeAttempt_def updateExamAttempt_def getExamAttempt_def
      getAnswersByAttempt_def table_get_set totalScore_sum Let_def)

text \<open>On the store with two attempts the answers carry the scores 2, 0 and 3 for the
  first attempt and 5 for the second: completing the first attempt sets its score to 5,
  not to 10, and 63.5 seconds after the start the time spent is 63.\<close>

theorem completeAttempt_sets_fields_witness:
  "getExamAttempt demo_store2 1 = Some demo_attempt \<and> att_userId demo_attempt = 1
   \<and> completedAt demo_attempt = None
   \<and> map (\<lambda>x. (attemptId x, ans_score x)) (table_values (answers demo_store2)) =
       [(1, Some 2), (1, Some 0), (1, Some 3), (2, Some 5)]
   \<and> getExamAttempt (snd (completeAttempt demo_store2 1 1 64500)) 1 =
       Some (demo_attempt\<lparr> completedAt := Some 64500, timeSpent := Some 63,
                           att_score := Some 5 \<rparr>)"
proof -
  have h1: "getExamAttempt demo_store2 1 = Some demo_attempt"
    by (simp add: getExamAttempt_def table_get_def demo_store2_def)
  have h2: "att_userId demo_attempt = 1" and h3: "completedAt demo_attempt = None"
    by (simp_all add: demo_attempt_def)
  have h4: "map (\<lambda>x. (attemptId x, ans_score x)) (table_values (answers demo_store2)) =
       [(1, Some 2), (1, Some 0), (1, Some 3), (2, Some 5)]"
    by (simp add: table_values_def demo_store2_def demo_answer1_def demo_answer2_def
        demo_answer3_def demo_answer4_def)
  have h5: "startedAt demo_attempt = 1000"
    by (simp add: demo_attempt_def)
  have h6: "(\<Sum>x\<leftarrow>filter (\<lambda>x. attemptId x = 1) (table_values (answers demo_store2)).
               case ans_score x of None \<Rightarrow> 0 | Some s \<Rightarrow> s) = 5"
    by (simp add: table_values_def demo_store2_def demo_answer1_def demo_answer2_def
        demo_answer3_def demo_answer4_def)
  from completeAttempt_sets_fields [OF h1 h2 h3, of 64500] h1 h2 h3 h4 h5 h6
  show ?thesis by simp
qed

section \<open>Resolving a grading request\<close>

text \<open>
  Claim C2. When the teacher who owns the exam approves a grading request with a score
  between 0 and the question's points, ResolveRequest answers with the resolved request,
  the answer stored under the request's answer id is the old answer with \<open>score\<close> set to
  the supplied score, \<open>isCorrect\<close> to (score > 0) and \<open>manuallyGraded\<close> to true, and the
  \<open>score\<close> of the attempt that owns the answer becomes the sum of the scores (null as 0)
  of those answers in the new store whose \<open>attemptId\<close> is that attempt's id; that sum is
  the same sum over the old store with the answer's old score taken out and the new one
  put in. The handler never looks at the request's status, so this holds for a pending
  request as for any other.
\<close>

theorem resolveRequest_approved_overrides_score:
  assumes "wf_store st"
    and "getGradingRequest st reqId = Some r"
    and "getAnswer st (answerId r) = Some ans"
    and "getExamAttempt st (attemptId ans) = Some att"
    and "getExam st (att_examId att) = Some ex" and "exam_userId ex = uid"
    and "getQuestion st (questionId ans) = Some q"
    and "0 \<le> s" and "s \<le> q_points q"
  shows "let st' = snd (resolveRequest st uid reqId ''approved'' comment (Some s) now);
             total = (\<lambda>t. \<Sum>x\<leftarrow>filter (\<lambda>x. attemptId x = attemptId ans) (table_values (answers t)).
                             case ans_score x of None \<Rightarrow> 0 | Some v \<Rightarrow> v)
         in fst (resolveRequest st uid reqId ''approved'' comment (Some s) now) =
              Json 200 (Some (r\<lparr> req_status := ''approved'', req_comment := comment,
                                 resolvedAt := Some now \<rparr>))
          \<and> getAnswer st' (answerId r) =
              Some (ans\<lparr> ans_score := Some s, isCorrect := Some (s > 0),
                         manuallyGraded := True \<rparr>)
          \<and> getExamAttempt st' (attemptId ans) = Some (att\<lparr> att_score := Some (total st') \<rparr>)
          \<and> total st' = total st - (case ans_score ans of None \<Rightarrow> 0 | Some v \<Rightarrow> v) + s"
proof -
  let ?r' = "r\<lparr> req_status := ''approved'', req_comment := comment, resolvedAt := Some now \<rparr>"
  let ?ans' = "ans\<lparr> ans_score := Some s, isCorrect := Some (s > 0), manuallyGraded := True \<rparr>"
  let ?as' = "table_set (answerId r) ?ans' (answers st)"
  let ?tot = "totalScore (filter (\<lambda>a. attemptId a = attemptId ans) (map snd ?as'))"
  let ?st' = "st\<lparr> gradingRequests := table_set reqId ?r' (gradingRequests st),
                  answers := ?as',
                  examAttempts := table_set (attemptId ans) (att\<lparr> att_score := Some ?tot \<rparr>)
                                    (examAttempts st) \<rparr>"
  from assms(1,3) have aid: "ans_id ans = answerId r"
    using wf_table_get_id [of ans_id "answerIdCounter st" "answers st" "answerId r" ans]
    by (simp add: wf_store_def getAnswer_def)
  from assms(1,4) have tid: "att_id att = attemptId ans"
    using wf_table_get_id [of att_id "attemptIdCounter st" "examAttempts st" "attemptId ans" att]
    by (simp add: wf_store_def getExamAttempt_def)
  have run: "resolveRequest st uid reqId ''approved'' comment (Some s) now = (Json 200 (Some ?r'), ?st')"
    using assms(2-9) aid tid
    by (simp add: resolveRequest_def updateGradingRequest_def updateAnswer_def
        updateExamAttempt_def getGradingRequest_def getAnswer_def getExamAttempt_def
        getExam_def getQuestion_def getAnswersByAttempt_def table_values_def Let_def)
  from assms(1) have dist: "distinct (map fst (answers st))"
    by (simp add: wf_store_def wf_table_def)
  from assms(3) have look: "map_of (answers st) (answerId r) = Some ans"
    by (simp add: getAnswer_def table_get_def)
  have sum: "(\<Sum>x\<leftarrow>filter (\<lambda>a. attemptId a = attemptId ans) (map snd ?as').
                case ans_score x of None \<Rightarrow> 0 | Some v \<Rightarrow> v) =
             (\<Sum>x\<leftarrow>filter (\<lambda>a. attemptId a = attemptId ans) (map snd (answers st)).
                case ans_score x of None \<Rightarrow> 0 | Some v \<Rightarrow> v)
               - (case ans_score ans of None \<Rightarrow> 0 | Some v \<Rightarrow> v) + s"
    using sum_table_set [OF dist look, of "\<lambda>x. case ans_score x of None \<Rightarrow> 0 | Some v \<Rightarrow> v"
        "\<lambda>a. attemptId a = attemptId ans" ?ans']
    by simp
  show ?thesis
    unfolding Let_def run
    using sum
    by (simp add: getAnswer_def getExamAttempt_def table_get_set table_values_def totalScore_sum)
qed

text \<open>On the store with two attempts the first answer of the first attempt (score 2,
  question worth 5) is regraded to 4: the first attempt's score goes from the sum 5 of
  its own answers to 7, not to 9, and not to the 12 that all answers of the store add
  up to; the second attempt is as it was.\<close>

theorem resolveRequest_approved_overrides_score_witness:
  "wf_store demo_store2 \<and> getGradingRequest demo_store2 1 = Some demo_request
   \<and> getAnswer demo_store2 (answerId demo_request) = Some demo_answer1
   \<and> getExamAttempt demo_store2 (attemptId demo_answer1) = Some demo_attempt
   \<and> getExam demo_store2 (att_examId demo_attempt) = Some demo_exam
   \<and> exam_userId demo_exam = 1
   \<and> getQuestion demo_store2 (questionId demo_answer1) = Some demo_q1
   \<and> (0::int) \<le> 4 \<and> 4 \<le> q_points demo_q1
   \<and> map (\<lambda>x. (attemptId x, ans_score x)) (table_values (answers demo_store2)) =
       [(1, Some 2), (1, Some 0), (1, Some 3), (2, Some 5)]
   \<and> getAnswer (snd (resolveRequest demo_store2 1 1 ''approved'' None (Some 4) 5000)) 1 =
       Some (demo_answer1\<lparr> ans_score := Some 4, isCorrect := Some True,
                           manuallyGraded := True \<rparr>)
   \<and> getExamAttempt (snd (resolveRequest demo_store2 1 1 ''approved'' None (Some 4) 5000)) 1 =
       Some (demo_attempt\<lparr> att_score := Some 7 \<rparr>)
   \<and> getExamAttempt (snd (resolveRequest demo_store2 1 1 ''approved'' None (Some 4) 5000)) 2 =
       Some demo_attempt2"
proof -
  have look: "getGradingRequest demo_store2 1 = Some demo_request"
    "getAnswer demo_store2 1 = Some demo_answer1"
    "getExamAttempt demo_store2 1 = Some demo_attempt"
    "getExam demo_store2 1 = Some demo_exam"
    "getQuestion demo_store2 1 = Some demo_q1"
    by (simp_all add: store_ops demo_store2_def demo_store_def)
  have wf: "wf_store demo_store2"
    by (simp add: wf_store_def wf_table_def demo_store2_def demo_defs demo_attempt2_def
        demo_answer4_def)
  have h2: "getGradingRequest demo_store2 1 = Some demo_request"
    and h3: "getAnswer demo_store2 (answerId demo_request) = Some demo_answer1"
    and h4: "getExamAttempt demo_store2 (attemptId demo_answer1) = Some demo_attempt"
    and h5: "getExam demo_store2 (att_examId demo_attempt) = Some demo_exam"
    and h6: "exam_userId demo_exam = 1"
    and h7: "getQuestion demo_store2 (questionId demo_answer1) = Some demo_q1"
    and h8: "(0::int) \<le> 4" and h9: "4 \<le> q_points demo_q1"
    by (simp_all add: look demo_fields)
  have all: "map (\<lambda>x. (attemptId x, ans_score x)) (table_values (answers demo_store2)) =
       [(1, Some 2), (1, Some 0), (1, Some 3), (2, Some 5)]"
    by (simp add: table_values_def demo_store2_def demo_records demo_answer4_def)
  have old: "(\<Sum>x\<leftarrow>filter (\<lambda>x. attemptId x = 1) (table_values (answers demo_store2)).
                case ans_score x of None \<Rightarrow> 0 | Some v \<Rightarrow> v) = 5"
    by (simp add: table_values_def demo_store2_def demo_records demo_answer4_def)
  have other: "getExamAttempt
      (snd (resolveRequest demo_store2 1 1 ''approved'' None (Some 4) 5000)) 2 = Some demo_attempt2"
    by (simp add: resolveRequest_def store_ops demo_store2_def demo_defs demo_answer4_def
        Let_def)
  from resolveRequest_approved_overrides_score
         [OF wf h2 h3 h4 h5 h6 h7 h8 h9, of None 5000]
  show ?thesis
    using wf h2 h3 h4 h5 h6 h7 h9 all old other
    by (simp add: Let_def demo_fields)
qed

section \<open>Grading on submission\<close>

text \<open>
  Claim C3, as amended. For an attempt of the caller that is not completed and a question
  that exists, SubmitAnswer always answers with a JSON body, and the answer it leaves
  stored for this attempt and question holds the submitted string and:
  for a \<open>multiple_choice\<close> or \<open>true_false\<close> question, \<open>isCorrect\<close> = (the string equals
  the question's \<open>correctAnswer\<close>) and \<open>score\<close> = the question's points if so, else 0;
  for an \<open>essay\<close> question, \<open>isCorrect\<close> and \<open>score\<close> as they were before the call (null
  for a first submission);
  for a question of any other type, \<open>isCorrect\<close> = false and \<open>score\<close> = 0.
\<close>

theorem submitAnswer_grading:
  assumes "wf_store st"
    and "getExamAttempt st attId = Some att" and "att_userId att = uid"
    and "completedAt att = None"
    and "getQuestion st qId = Some q"
  shows "let old = find (\<lambda>a. questionId a = qId) (getAnswersByAttempt st attId);
             stored = find (\<lambda>a. questionId a = qId)
                        (getAnswersByAttempt (snd (submitAnswer st uid attId qId txt)) attId)
         in (\<exists>code body. fst (submitAnswer st uid attId qId txt) = Json code body)
          \<and> map_option ans_answer stored = Some txt
          \<and> (q_type q = ''multiple_choice'' \<or> q_type q = ''true_false'' \<longrightarrow>
               map_option isCorrect stored = Some (Some (JStr txt = q_correctAnswer q))
             \<and> map_option ans_score stored =
                 Some (Some (if JStr txt = q_correctAnswer q then q_points q else 0)))
          \<and> (q_type q = ''essay'' \<longrightarrow>
               map_option isCorrect stored =
                 Some (case old of None \<Rightarrow> None | Some e \<Rightarrow> isCorrect e)
             \<and> map_option ans_score stored =
                 Some (case old of None \<Rightarrow> None | Some e \<Rightarrow> ans_score e))
          \<and> (q_type q \<noteq> ''multiple_choice'' \<and> q_type q \<noteq> ''true_false'' \<and> q_type q \<noteq> ''essay'' \<longrightarrow>
               map_option isCorrect stored = Some (Some False)
             \<and> map_option ans_score stored = Some (Some 0))"
proof -
  have resp: "\<exists>code body. fst (submitAnswer st uid attId qId txt) = Json code body"
  proof (cases "find (\<lambda>a. questionId a = qId) (getAnswersByAttempt st attId)")
    case None
    from submitAnswer_new [OF assms(2-4) None, of "txt"] show ?thesis by simp
  next
    case (Some e)
    from submitAnswer_existing [OF assms(1-4) Some, of "txt"] show ?thesis by simp
  qed
  show ?thesis
    unfolding Let_def submitAnswer_stored [OF assms(1-4)] assms(5)
    using resp
    by (simp add: graded_def gradeBlock_def Let_def split: option.splits)
qed

text \<open>On the demo store: a right and a wrong answer to the multiple-choice question, a
  new text for the essay that a teacher has graded 3, and an answer to the question of
  unknown type.\<close>

theorem submitAnswer_grading_witness:
  "wf_store demo_store \<and> getExamAttempt demo_store 1 = Some demo_attempt
   \<and> att_userId demo_attempt = 1 \<and> completedAt demo_attempt = None
   \<and> getQuestion demo_store 1 = Some demo_q1 \<and> q_type demo_q1 = ''multiple_choice''
   \<and> getQuestion demo_store 3 = Some demo_q3 \<and> q_type demo_q3 = ''essay''
   \<and> getQuestion demo_store 4 = Some demo_q4 \<and> q_type demo_q4 = ''short_answer''
   \<and> map_option isCorrect (find (\<lambda>a. questionId a = 1)
         (getAnswersByAttempt (snd (submitAnswer demo_store 1 1 1 ''A'')) 1)) = Some (Some True)
   \<and> map_option ans_score (find (\<lambda>a. questionId a = 1)
         (getAnswersByAttempt (snd (submitAnswer demo_store 1 1 1 ''A'')) 1)) = Some (Some 5)
   \<and> map_option ans_score (find (\<lambda>a. questionId a = 1)
         (getAnswersByAttempt (snd (submitAnswer demo_store 1 1 1 ''B'')) 1)) = Some (Some 0)
   \<and> map_option isCorrect (find (\<lambda>a. questionId a = 3)
         (getAnswersByAttempt (snd (submitAnswer demo_store 1 1 3 ''more'')) 1)) = Some (Some True)
   \<and> map_option ans_score (find (\<lambda>a. questionId a = 3)
         (getAnswersByAttempt (snd (submitAnswer demo_store 1 1 3 ''more'')) 1)) = Some (Some 3)
   \<and> map_option isCorrect (find (\<lambda>a. questionId a = 4)
         (getAnswersByAttempt (snd (submitAnswer demo_store 1 1 4 ''y'')) 1)) = Some (Some False)
   \<and> map_option ans_score (find (\<lambda>a. questionId a = 4)
         (getAnswersByAttempt (snd (submitAnswer demo_store 1 1 4 ''y'')) 1)) = Some (Some 0)"
proof -
  note att = demo_lookups(1) demo_fields(1,2)
  note g = submitAnswer_grading [OF wf_demo_store att]
  from g [OF demo_lookups(5), of "''A''"] g [OF demo_lookups(5), of "''B''"]
    g [OF demo_lookups(6), of "''more''"] g [OF demo_lookups(7), of "''y''"]
  show ?thesis
    using wf_demo_store
    by (simp add: Let_def demo_lookups demo_fields demo_old_answers demo_records)
qed

text \<open>The claim as the spec states it fails on the demo store. An unknown type is not
  handled like an essay: the answer to the question of type \<open>short_answer\<close> is stored
  with \<open>isCorrect\<close> = false and \<open>score\<close> = 0, not null. And for an essay the two fields
  are left as they are rather than null: the essay answer a teacher has graded 3 keeps
  that score when the student submits a new text.\<close>

theorem unknown_type_is_graded_counterexample:
  "map_option q_type (getQuestion demo_store 4) = Some ''short_answer''
   \<and> map_option isCorrect (getAnswer (snd (submitAnswer demo_store 1 1 4 ''y'')) 4) = Some (Some False)
   \<and> map_option ans_score (getAnswer (snd (submitAnswer demo_store 1 1 4 ''y'')) 4) = Some (Some 0)
   \<and> map_option isCorrect (getAnswer (snd (submitAnswer demo_store 1 1 4 ''y'')) 4) \<noteq> Some None
   \<and> map_option ans_score (getAnswer (snd (submitAnswer demo_store 1 1 4 ''y'')) 4) \<noteq> Some None
   \<and> map_option q_type (getQuestion demo_store 3) = Some ''essay''
   \<and> map_option ans_score (getAnswer (snd (submitAnswer demo_store 1 1 3 ''more'')) 3) = Some (Some 3)"
  by (simp add: submitAnswer_def gradeStored_def gradeBlock_def createAnswer_def store_ops
      demo_defs Let_def)

section \<open>Starting an attempt twice\<close>

text \<open>
  Claim C4. For every insert schema: on an active exam, when the user has an attempt in
  progress for the exam (and, as the store guarantees, no second one), StartAttempt
  answers 200 with that attempt and leaves the store as it was, without consulting the
  schema. And whatever the store, when StartAttempt has answered with an attempt
  (found, or created after the schema accepted its fields), calling it again for the
  same user and exam on the store it left answers 200 with the same attempt and changes
  nothing.
\<close>

theorem startAttempt_idempotent:
  "(getExam st eid = Some ex \<and> exam_status ex = ''active''
      \<and> a \<in> set (inProgress st uid eid) \<and> length (inProgress st uid eid) \<le> 1
      \<longrightarrow> startAttempt sch st uid eid now = (Json 200 a, st))
   \<and> (startAttempt sch st uid eid now = (Json c a1, st1)
      \<longrightarrow> startAttempt sch st1 uid eid now' = (Json 200 a1, st1))"
proof (intro conjI impI)
  assume h: "getExam st eid = Some ex \<and> exam_status ex = ''active''
      \<and> a \<in> set (inProgress st uid eid) \<and> length (inProgress st uid eid) \<le> 1"
  then have "inProgress st uid eid = [a]"
    by (cases "inProgress st uid eid") auto
  then have "find (\<lambda>a. att_examId a = eid \<and> completedAt a = None)
               (getExamAttemptsByUser st uid) = Some a"
    by (simp add: find_hd_filter inProgress_def)
  with h show "startAttempt sch st uid eid now = (Json 200 a, st)"
    by (simp add: startAttempt_def)
next
  assume run: "startAttempt sch st uid eid now = (Json c a1, st1)"
  let ?P = "\<lambda>a. att_examId a = eid \<and> completedAt a = None"
  from startAttempt_Json [OF run] obtain ex where
    ex: "getExam st eid = Some ex" "exam_status ex = ''active''" by blast
  from startAttempt_cases [OF run]
  show "startAttempt sch st1 uid eid now' = (Json 200 a1, st1)"
  proof (elim disjE conjE)
    assume "st1 = st" and "find ?P (getExamAttemptsByUser st uid) = Some a1"
    with ex show ?thesis by (simp add: startAttempt_def)
  next
    assume none: "find ?P (getExamAttemptsByUser st uid) = None"
      and cr: "(a1, st1) = createExamAttempt st eid uid
             (foldl (\<lambda>total q. total + q_points q) 0 (getQuestionsByExam st eid)) now"
    let ?Q = "\<lambda>a. att_userId a = uid \<and> att_examId a = eid \<and> completedAt a = None"
    from none have n: "find ?Q (map snd (examAttempts st)) = None"
      by (simp add: getExamAttemptsByUser_def table_values_def find_filter)
    from cr have a1: "?Q a1" and st1: "examAttempts st1 =
        table_set (attemptIdCounter st) a1 (examAttempts st)" "exams st1 = exams st"
      by (simp_all add: createExamAttempt_def Let_def)
    from find_table_set_new [of ?Q, OF n a1, of "attemptIdCounter st"]
    have "find ?P (getExamAttemptsByUser st1 uid) = Some a1"
      by (simp add: getExamAttemptsByUser_def table_values_def find_filter st1)
    with ex st1(2) show ?thesis by (simp add: startAttempt_def getExam_def)
  qed
qed

text \<open>On the demo store user 1 has an attempt in progress and gets it back; user 2 has
  none, gets a new one, and gets the same one on the second call.\<close>

theorem startAttempt_idempotent_witness:
  "getExam demo_store 1 = Some demo_exam \<and> exam_status demo_exam = ''active''
   \<and> demo_attempt \<in> set (inProgress demo_store 1 1) \<and> length (inProgress demo_store 1 1) \<le> 1
   \<and> startAttempt int32_schema demo_store 1 1 9000 = (Json 200 demo_attempt, demo_store)
   \<and> fst (startAttempt int32_schema demo_store 2 1 7000) = Json 201 demo_attempt2
   \<and> startAttempt int32_schema (snd (startAttempt int32_schema demo_store 2 1 7000)) 2 1 8000 =
       (Json 200 demo_attempt2, snd (startAttempt int32_schema demo_store 2 1 7000))"
proof -
  have ip: "inProgress demo_store 1 1 = [demo_attempt]"
    by (simp add: inProgress_def store_ops demo_defs)
  from startAttempt_idempotent [of demo_store 1 demo_exam demo_attempt 1 int32_schema 9000 _ _ _ 8000]
    startAttempt_idempotent [of demo_store 1 demo_exam demo_attempt 2 int32_schema 7000 201 demo_attempt2
      "demo_store\<lparr> attemptIdCounter := 3,
                   examAttempts := [(1, demo_attempt), (2, demo_attempt2)] \<rparr>" 8000]
  show ?thesis
    by (simp add: ip demo_lookups demo_fields demo_start_user2)
qed

section \<open>The maximum score is frozen\<close>

text \<open>
  Claim C5. In a well-formed store and for every insert schema, when StartAttempt
  answers with an attempt, then: if the attempt was created (status 201), its
  \<open>maxScore\<close> is the sum of the points of the questions of the exam in the store at that
  moment, and the schema has accepted the attempt's fields (when it rejects them the
  handler answers 400 and creates nothing, \<open>startAttempt_rejected\<close>); the attempt is
  stored under its id; and after any sequence of later requests (adding questions,
  starting attempts, submitting answers, completing attempts, grading, asking for and
  resolving reviews) the attempt stored under that id still has the same \<open>maxScore\<close>.
\<close>

theorem maxScore_frozen:
  assumes "wf_store st" and "startAttempt sch st uid eid now = (Json c a, st1)"
  shows "(c = 201 \<longrightarrow>
            maxScore a = (\<Sum>q\<leftarrow>filter (\<lambda>q. q_examId q = eid) (table_values (questions st)).
                            q_points q)
          \<and> sch eid uid (maxScore a))
       \<and> getExamAttempt st1 (att_id a) = Some a
       \<and> map_option maxScore (getExamAttempt (foldl (handle sch) st1 reqs) (att_id a)) =
           Some (maxScore a)"
proof -
  from assms(1) have wf1: "wf_store st1"
    using wf_startAttempt [of st sch uid eid now] assms(2) by simp
  have stored: "getExamAttempt st1 (att_id a) = Some a"
    using startAttempt_cases [OF assms(2)]
  proof (elim disjE conjE)
    assume "st1 = st" and
      f: "find (\<lambda>a. att_examId a = eid \<and> completedAt a = None) (getExamAttemptsByUser st uid) = Some a"
    from f have "a \<in> set (table_values (examAttempts st))"
      using find_Some_member [of _ "getExamAttemptsByUser st uid" a]
      by (simp add: getExamAttemptsByUser_def)
    with assms(1) \<open>st1 = st\<close> show ?thesis
      using wf_table_member [of att_id "attemptIdCounter st" "examAttempts st" a]
      by (simp add: wf_store_def getExamAttempt_def)
  next
    assume "(a, st1) = createExamAttempt st eid uid
             (foldl (\<lambda>total q. total + q_points q) 0 (getQuestionsByExam st eid)) now"
    then show ?thesis
      by (simp add: createExamAttempt_def getExamAttempt_def table_get_set Let_def)
  qed
  have sum: "c = 201 \<longrightarrow>
            maxScore a = (\<Sum>q\<leftarrow>filter (\<lambda>q. q_examId q = eid) (table_values (questions st)).
                            q_points q)
          \<and> sch eid uid (maxScore a)"
    using startAttempt_cases [OF assms(2)]
    by (auto simp: createExamAttempt_def Let_def)
       (simp_all add: getQuestionsByExam_def foldl_plus_sum sum_sort_key)
  from stored have "map_option maxScore (getExamAttempt st1 (att_id a)) = Some (maxScore a)"
    by simp
  from mx_foldl_handle [OF wf1 this] sum stored show ?thesis by blast
qed

text \<open>On the demo store, with the schema of 32-bit integer columns, the questions are
  worth 16 together; the attempt user 2 starts keeps 16 after a question worth 10 is added, an answer is submitted and the attempt
  is completed.\<close>

theorem maxScore_frozen_witness:
  "wf_store demo_store \<and> fst (startAttempt int32_schema demo_store 2 1 7000) = Json 201 demo_attempt2
   \<and> maxScore demo_attempt2 = 16 \<and> int32_schema 1 2 (maxScore demo_attempt2)
   \<and> (\<Sum>q\<leftarrow>filter (\<lambda>q. q_examId q = 1) (table_values (questions demo_store)). q_points q) = 16
   \<and> map_option maxScore
        (getExamAttempt
           (foldl (handle int32_schema) (snd (startAttempt int32_schema demo_store 2 1 7000))
              [AddQuestion 1 1 \<lparr> iq_type = ''essay'', iq_text = ''Q6'', iq_points = Some 10,
                                  iq_order = None, iq_options = None, iq_correctAnswer = None \<rparr>,
               SubmitAnswer 2 2 1 ''A'',
               CompleteAttempt 2 2 9000]) 2) = Some 16"
proof -
  have sum: "(\<Sum>q\<leftarrow>filter (\<lambda>q. q_examId q = 1) (table_values (questions demo_store)).
                q_points q) = 16"
    by (simp add: table_values_def demo_defs)
  have id: "att_id demo_attempt2 = 2" and mx: "maxScore demo_attempt2 = 16"
    by (simp_all add: demo_attempt2_def)
  from maxScore_frozen [OF wf_demo_store demo_start_user2,
      of "[AddQuestion 1 1 \<lparr> iq_type = ''essay'', iq_text = ''Q6'', iq_points = Some 10,
                                  iq_order = None, iq_options = None, iq_correctAnswer = None \<rparr>,
               SubmitAnswer 2 2 1 ''A'',
               CompleteAttempt 2 2 9000]"]
  show ?thesis
    using wf_demo_store sum
    by (simp add: demo_start_user2 id mx)
qed

section \<open>A completed attempt stays completed\<close>

text \<open>
  Claim C6. For an attempt of the caller: if it is completed, CompleteAttempt and every
  SubmitAnswer fail with status 400, \<open>Attempt already completed\<close> (the spec's
  InvalidState), and leave the store as it was; if it is not completed, CompleteAttempt
  succeeds, and on the store it leaves a second CompleteAttempt and every SubmitAnswer
  fail in that way, again changing nothing.
\<close>

theorem completed_attempt_is_terminal:
  assumes "getExamAttempt st attId = Some a" and "att_userId a = uid"
  shows "(completedAt a \<noteq> None \<longrightarrow>
            completeAttempt st uid attId now = (Error 400 ''Attempt already completed'', st)
          \<and> submitAnswer st uid attId qId txt = (Error 400 ''Attempt already completed'', st))
       \<and> (completedAt a = None \<longrightarrow>
            (\<exists>a'. fst (completeAttempt st uid attId now) = Json 200 (Some a'))
          \<and> completeAttempt (snd (completeAttempt st uid attId now)) uid attId now' =
              (Error 400 ''Attempt already completed'', snd (completeAttempt st uid attId now))
          \<and> submitAnswer (snd (completeAttempt st uid attId now)) uid attId qId txt =
              (Error 400 ''Attempt already completed'', snd (completeAttempt st uid attId now)))"
  using assms
  by (auto simp: completeAttempt_def submitAnswer_def updateExamAttempt_def getExamAttempt_def
      table_get_set Let_def)

text \<open>On the demo store, whose attempt is in progress, and on the same store with
  the attempt completed.\<close>

theorem completed_attempt_is_terminal_witness:
  "getExamAttempt demo_store 1 = Some demo_attempt \<and> att_userId demo_attempt = 1
   \<and> completedAt demo_attempt = None
   \<and> fst (completeAttempt demo_store 1 1 64500) =
       Json 200 (Some (demo_attempt\<lparr> completedAt := Some 64500, timeSpent := Some 63,
                                     att_score := Some 5 \<rparr>))
   \<and> completeAttempt (snd (completeAttempt demo_store 1 1 64500)) 1 1 70000 =
       (Error 400 ''Attempt already completed'', snd (completeAttempt demo_store 1 1 64500))
   \<and> submitAnswer (snd (completeAttempt demo_store 1 1 64500)) 1 1 1 ''B'' =
       (Error 400 ''Attempt already completed'', snd (completeAttempt demo_store 1 1 64500))
   \<and> getExamAttempt (demo_store\<lparr> examAttempts :=
          [(1, demo_attempt\<lparr> completedAt := Some 64500 \<rparr>)] \<rparr>) 1 =
       Some (demo_attempt\<lparr> completedAt := Some 64500 \<rparr>)
   \<and> completedAt (demo_attempt\<lparr> completedAt := Some 64500 \<rparr>) \<noteq> None
   \<and> completeAttempt (demo_store\<lparr> examAttempts :=
          [(1, demo_attempt\<lparr> completedAt := Some 64500 \<rparr>)] \<rparr>) 1 1 70000 =
       (Error 400 ''Attempt already completed'',
        demo_store\<lparr> examAttempts := [(1, demo_attempt\<lparr> completedAt := Some 64500 \<rparr>)] \<rparr>)
   \<and> submitAnswer (demo_store\<lparr> examAttempts :=
          [(1, demo_attempt\<lparr> completedAt := Some 64500 \<rparr>)] \<rparr>) 1 1 2 ''true'' =
       (Error 400 ''Attempt already completed'',
        demo_store\<lparr> examAttempts := [(1, demo_attempt\<lparr> completedAt := Some 64500 \<rparr>)] \<rparr>)"
proof -
  let ?done = "demo_store\<lparr> examAttempts := [(1, demo_attempt\<lparr> completedAt := Some 64500 \<rparr>)] \<rparr>"
  have d: "getExamAttempt ?done 1 = Some (demo_attempt\<lparr> completedAt := Some 64500 \<rparr>)"
    by (simp add: getExamAttempt_def table_get_def)
  have u: "att_userId (demo_attempt\<lparr> completedAt := Some 64500 \<rparr>) = 1"
    by (simp add: demo_attempt_def)
  have first: "fst (completeAttempt demo_store 1 1 64500) =
       Json 200 (Some (demo_attempt\<lparr> completedAt := Some 64500, timeSpent := Some 63,
                                     att_score := Some 5 \<rparr>))"
    by (simp add: completeAttempt_def store_ops demo_defs Let_def)
  from completed_attempt_is_terminal [OF demo_lookups(1) demo_fields(1), of 64500 1 "''B''" 70000]
    completed_attempt_is_terminal [OF d u, of 70000 2 "''true''" 80000]
  show ?thesis
    using first d by (simp add: demo_lookups demo_fields)
qed

section \<open>Score bounds\<close>

text \<open>
  Claim C7 does not hold of the code. The demo store satisfies the score bounds; after
  the owning teacher approves the pending request with the score -3, which
  ResolveRequest accepts, the first answer's score is -3 and the bounds are broken.
\<close>

theorem score_bounds_broken_by_resolveRequest:
  "score_bounds demo_store
   \<and> \<not> score_bounds (handle int32_schema demo_store
            (ResolveRequest 1 1 ''approved'' None (Some (- 3)) 5000))"
  by (simp add: score_bounds_def resolveRequest_def store_ops demo_defs Let_def)

text \<open>
  Claim C8 does not hold of the code. On the demo store ResolveRequest with decision
  \<open>approved\<close> and score -1 answers 200 and overwrites the answer's score with -1, where
  the manual-grading handler rejects the same score with 400, \<open>Invalid score\<close>.
\<close>

theorem resolveRequest_negative_score_accepted:
  "fst (resolveRequest demo_store 1 1 ''approved'' None (Some (- 1)) 5000) =
     Json 200 (Some (demo_request\<lparr> req_status := ''approved'', req_comment := None,
                                   resolvedAt := Some 5000 \<rparr>))
   \<and> getAnswer (snd (resolveRequest demo_store 1 1 ''approved'' None (Some (- 1)) 5000)) 1 =
       Some (demo_answer1\<lparr> ans_score := Some (- 1), isCorrect := Some False,
                           manuallyGraded := True \<rparr>)
   \<and> fst (gradeAnswer demo_store 1 1 (Some (- 1)) False) = Error 400 ''Invalid score''"
  by (simp add: resolveRequest_def gradeAnswer_def store_ops demo_defs Let_def)

text \<open>
  Claim C9 does not hold of the code. On the demo store ResolveRequest with decision
  \<open>approved\<close> and score 6 on a question worth 5 fails with 400,
  \<open>Score cannot exceed question points\<close>, but the store it leaves holds the request
  as \<open>approved\<close> with \<open>resolvedAt\<close> set; before the call the request was pending.
\<close>

theorem resolveRequest_error_keeps_resolution:
  "resolveRequest demo_store 1 1 ''approved'' None (Some 6) 5000 =
     (Error 400 ''Score cannot exceed question points'',
      demo_store\<lparr> gradingRequests :=
        [(1, demo_request\<lparr> req_status := ''approved'', req_comment := None,
                            resolvedAt := Some 5000 \<rparr>)] \<rparr>)
   \<and> map_option req_status (getGradingRequest demo_store 1) = Some ''pending''"
  by (simp add: resolveRequest_def store_ops demo_defs Let_def)

section \<open>The response to a submission\<close>

text \<open>
  Claim C10. For an attempt of the caller that is not completed and a
  \<open>multiple_choice\<close> or \<open>true_false\<close> question: on a first submission the response is
  the new answer with \<open>isCorrect\<close> and \<open>score\<close> null, while the answer stored under its id
  is graded; on a re-submission the response is the previous answer with only the answer
  string replaced, so it carries the previous \<open>isCorrect\<close> and \<open>score\<close>, while the stored
  answer carries the values computed from the new string.
\<close>

theorem submitAnswer_response_is_snapshot:
  assumes "wf_store st"
    and "getExamAttempt st attId = Some att" and "att_userId att = uid"
    and "completedAt att = None"
    and "getQuestion st qId = Some q"
    and "q_type q = ''multiple_choice'' \<or> q_type q = ''true_false''"
  shows "(find (\<lambda>a. questionId a = qId) (getAnswersByAttempt st attId) = None \<longrightarrow>
            fst (submitAnswer st uid attId qId txt) =
              Json 201 (Some \<lparr> ans_id = answerIdCounter st, attemptId = attId,
                 questionId = qId, ans_answer = txt, isCorrect = None, ans_score = None,
                 manuallyGraded = False \<rparr>)
          \<and> getAnswer (snd (submitAnswer st uid attId qId txt)) (answerIdCounter st) =
              Some \<lparr> ans_id = answerIdCounter st, attemptId = attId,
                 questionId = qId, ans_answer = txt,
                 isCorrect = Some (JStr txt = q_correctAnswer q),
                 ans_score = Some (if JStr txt = q_correctAnswer q then q_points q else 0),
                 manuallyGraded = False \<rparr>)
       \<and> (\<forall>e. find (\<lambda>a. questionId a = qId) (getAnswersByAttempt st attId) = Some e \<longrightarrow>
            fst (submitAnswer st uid attId qId txt) = Json 200 (Some (e\<lparr> ans_answer := txt \<rparr>))
          \<and> getAnswer (snd (submitAnswer st uid attId qId txt)) (ans_id e) =
              Some (e\<lparr> ans_answer := txt,
                      isCorrect := Some (JStr txt = q_correctAnswer q),
                      ans_score := Some (if JStr txt = q_correctAnswer q then q_points q else 0) \<rparr>))"
proof (intro conjI impI allI)
  assume none: "find (\<lambda>a. questionId a = qId) (getAnswersByAttempt st attId) = None"
  note eq = submitAnswer_new [OF assms(2-4) none, of "txt"]
  show "fst (submitAnswer st uid attId qId txt) =
              Json 201 (Some \<lparr> ans_id = answerIdCounter st, attemptId = attId,
                 questionId = qId, ans_answer = txt, isCorrect = None, ans_score = None,
                 manuallyGraded = False \<rparr>)"
    by (simp add: eq)
  from assms(5,6)
  show "getAnswer (snd (submitAnswer st uid attId qId txt)) (answerIdCounter st) =
              Some \<lparr> ans_id = answerIdCounter st, attemptId = attId,
                 questionId = qId, ans_answer = txt,
                 isCorrect = Some (JStr txt = q_correctAnswer q),
                 ans_score = Some (if JStr txt = q_correctAnswer q then q_points q else 0),
                 manuallyGraded = False \<rparr>"
    by (auto simp: eq getAnswer_def table_get_set graded_def gradeBlock_def Let_def)
next
  fix e
  assume some: "find (\<lambda>a. questionId a = qId) (getAnswersByAttempt st attId) = Some e"
  note eq = submitAnswer_existing [OF assms(1-4) some, of "txt"]
  show "fst (submitAnswer st uid attId qId txt) = Json 200 (Some (e\<lparr> ans_answer := txt \<rparr>))"
    by (simp add: eq)
  from assms(5,6)
  show "getAnswer (snd (submitAnswer st uid attId qId txt)) (ans_id e) =
              Some (e\<lparr> ans_answer := txt,
                      isCorrect := Some (JStr txt = q_correctAnswer q),
                      ans_score := Some (if JStr txt = q_correctAnswer q then q_points q else 0) \<rparr>)"
    by (auto simp: eq getAnswer_def table_get_set graded_def gradeBlock_def Let_def)
qed

text \<open>On the demo store: a first answer to the second true/false question, and a
  second answer to the multiple-choice question, whose first answer was graded
  correct with score 2.\<close>

theorem submitAnswer_response_is_snapshot_witness:
  "wf_store demo_store \<and> getExamAttempt demo_store 1 = Some demo_attempt
   \<and> att_userId demo_attempt = 1 \<and> completedAt demo_attempt = None
   \<and> getQuestion demo_store 5 = Some demo_q5 \<and> q_type demo_q5 = ''true_false''
   \<and> find (\<lambda>a. questionId a = 5) (getAnswersByAttempt demo_store 1) = None
   \<and> fst (submitAnswer demo_store 1 1 5 ''false'') =
        Json 201 (Some \<lparr> ans_id = 4, attemptId = 1, questionId = 5, ans_answer = ''false'',
                         isCorrect = None, ans_score = None, manuallyGraded = False \<rparr>)
   \<and> getAnswer (snd (submitAnswer demo_store 1 1 5 ''false'')) 4 =
        Some \<lparr> ans_id = 4, attemptId = 1, questionId = 5, ans_answer = ''false'',
               isCorrect = Some True, ans_score = Some 2, manuallyGraded = False \<rparr>
   \<and> getQuestion demo_store 1 = Some demo_q1 \<and> q_type demo_q1 = ''multiple_choice''
   \<and> find (\<lambda>a. questionId a = 1) (getAnswersByAttempt demo_store 1) = Some demo_answer1
   \<and> isCorrect demo_answer1 = Some True \<and> ans_score demo_answer1 = Some 2
   \<and> fst (submitAnswer demo_store 1 1 1 ''B'') =
        Json 200 (Some (demo_answer1\<lparr> ans_answer := ''B'' \<rparr>))
   \<and> getAnswer (snd (submitAnswer demo_store 1 1 1 ''B'')) 1 =
        Some (demo_answer1\<lparr> ans_answer := ''B'', isCorrect := Some False, ans_score := Some 0 \<rparr>)"
proof -
  note att = demo_lookups(1) demo_fields(1,2)
  have t5: "q_type demo_q5 = ''multiple_choice'' \<or> q_type demo_q5 = ''true_false''"
    and t1: "q_type demo_q1 = ''multiple_choice'' \<or> q_type demo_q1 = ''true_false''"
    by (simp_all add: demo_fields)
  have c: "answerIdCounter demo_store = 4" by (simp add: demo_store_def)
  have a1: "isCorrect demo_answer1 = Some True" by (simp add: demo_answer1_def)
  from submitAnswer_response_is_snapshot [OF wf_demo_store att demo_lookups(8) t5, of "''false''"]
    submitAnswer_response_is_snapshot [OF wf_demo_store att demo_lookups(5) t1, of "''B''"]
  show ?thesis
    using wf_demo_store a1
    by (simp add: demo_lookups demo_fields demo_old_answers c)
qed

end
